theory Spec2Isabelle
  imports Main "HOL-Library.Char_ord" "HOL-Library.List_Lexorder" "HOL-Library.Product_Lexorder"
begin

section \<open>Python string operations used by the ability codec\<close>

text \<open>
  Strings are lists of characters; the model covers ASCII text. Each function below is the
  Python \<open>str\<close> method of the same name, restricted to the ways the source calls it.
\<close>

definition is_space :: "char \<Rightarrow> bool" where
  "is_space c = (c \<in> set [CHR 0x09, CHR 0x0A, CHR 0x0B, CHR 0x0C, CHR 0x0D,
                            CHR 0x1C, CHR 0x1D, CHR 0x1E, CHR 0x1F, CHR 0x20])"

definition strip :: "string \<Rightarrow> string" where
  "strip s = rev (dropWhile is_space (rev (dropWhile is_space s)))"

definition startswith :: "string \<Rightarrow> string \<Rightarrow> bool" where
  "startswith s p = (take (length p) s = p)"

text \<open>\<open>sub in s\<close>\<close>

fun contains :: "string \<Rightarrow> string \<Rightarrow> bool" where
  "contains sub [] = (sub = [])"
| "contains sub (c # cs) = (startswith (c # cs) sub \<or> contains sub cs)"

text \<open>
  \<open>s.count(sub)\<close>: occurrences counted left to right without overlap; the counter \<open>k\<close>
  holds how many characters of the last match are still to be skipped.
\<close>

fun count_aux :: "string \<Rightarrow> nat \<Rightarrow> string \<Rightarrow> nat" where
  "count_aux sub k [] = 0"
| "count_aux sub k (c # cs) =
     (if 0 < k then count_aux sub (k - 1) cs
      else if startswith (c # cs) sub then Suc (count_aux sub (length sub - 1) cs)
      else count_aux sub 0 cs)"

definition count_str :: "string \<Rightarrow> string \<Rightarrow> nat" where
  "count_str s sub = (if sub = [] then Suc (length s) else count_aux sub 0 s)"

text \<open>\<open>s.replace(old, new)\<close> for a non-empty \<open>old\<close>.\<close>

fun replace_aux :: "string \<Rightarrow> string \<Rightarrow> nat \<Rightarrow> string \<Rightarrow> string" where
  "replace_aux old new k [] = []"
| "replace_aux old new k (c # cs) =
     (if 0 < k then replace_aux old new (k - 1) cs
      else if startswith (c # cs) old then new @ replace_aux old new (length old - 1) cs
      else c # replace_aux old new 0 cs)"

definition replace_str :: "string \<Rightarrow> string \<Rightarrow> string \<Rightarrow> string" where
  "replace_str s old new = replace_aux old new 0 s"

text \<open>\<open>s.split(sep)\<close> for a non-empty separator; \<open>acc\<close> is the current piece, reversed.\<close>

fun split_aux :: "string \<Rightarrow> nat \<Rightarrow> string \<Rightarrow> string \<Rightarrow> string list" where
  "split_aux sep k acc [] = [rev acc]"
| "split_aux sep k acc (c # cs) =
     (if 0 < k then split_aux sep (k - 1) acc cs
      else if startswith (c # cs) sep then rev acc # split_aux sep (length sep - 1) [] cs
      else split_aux sep 0 (c # acc) cs)"

definition split :: "string \<Rightarrow> string \<Rightarrow> string list" where
  "split s sep = split_aux sep 0 [] s"

text \<open>\<open>s.split(c, maxsplit=1)\<close> for a one-character separator.\<close>

definition split1 :: "string \<Rightarrow> char \<Rightarrow> string list" where
  "split1 s c = (if c \<in> set s then [takeWhile (\<lambda>x. x \<noteq> c) s, tl (dropWhile (\<lambda>x. x \<noteq> c) s)]
                 else [s])"

text \<open>\<open>sep.join(xs)\<close>\<close>

fun join :: "string \<Rightarrow> string list \<Rightarrow> string" where
  "join sep [] = []"
| "join sep [x] = x"
| "join sep (x # y # ys) = x @ sep @ join sep (y # ys)"

definition lowercase :: string where
  "lowercase = ''abcdefghijklmnopqrstuvwxyz''"

definition uppercase :: string where
  "uppercase = ''ABCDEFGHIJKLMNOPQRSTUVWXYZ''"

definition is_lower :: "char \<Rightarrow> bool" where
  "is_lower c = (c \<in> set lowercase)"

definition is_upper :: "char \<Rightarrow> bool" where
  "is_upper c = (c \<in> set uppercase)"

definition to_upper :: "char \<Rightarrow> char" where
  "to_upper c = (case map_of (zip lowercase uppercase) c of None \<Rightarrow> c | Some u \<Rightarrow> u)"

definition to_lower :: "char \<Rightarrow> char" where
  "to_lower c = (case map_of (zip uppercase lowercase) c of None \<Rightarrow> c | Some l \<Rightarrow> l)"

definition upper :: "string \<Rightarrow> string" where
  "upper s = map to_upper s"

definition lower :: "string \<Rightarrow> string" where
  "lower s = map to_lower s"

text \<open>
  \<open>s.title()\<close>: a letter that follows a letter is lowered, any other letter is raised.
  The flag says whether the previous character was a letter.
\<close>

fun title_aux :: "bool \<Rightarrow> string \<Rightarrow> string" where
  "title_aux prev [] = []"
| "title_aux prev (c # cs) =
     (if is_lower c \<or> is_upper c
      then (if prev then to_lower c else to_upper c) # title_aux True cs
      else c # title_aux False cs)"

definition title :: "string \<Rightarrow> string" where
  "title s = title_aux False s"

text \<open>\<open>str(n)\<close> for an integer.\<close>

definition digits :: string where
  "digits = ''0123456789''"

definition digit_char :: "nat \<Rightarrow> char" where
  "digit_char d = digits ! d"

fun str_nat :: "nat \<Rightarrow> string" where
  "str_nat n = (if n < 10 then [digit_char n] else str_nat (n div 10) @ [digit_char (n mod 10)])"

declare str_nat.simps [simp del]

definition str_int :: "int \<Rightarrow> string" where
  "str_int i = (if i < 0 then CHR ''-'' # str_nat (nat (- i)) else str_nat (nat i))"

text \<open>
  \<open>int(s)\<close>: blanks around the number (space, tab, line feed, vertical tab, form feed,
  carriage return) and one sign are accepted, then decimal digits, with single underscores
  allowed between digits; more than 4300 digits, or anything else, raises \<open>ValueError\<close>
  (here \<open>None\<close>).
\<close>

definition is_int_space :: "char \<Rightarrow> bool" where
  "is_int_space c = (c \<in> set [CHR 0x09, CHR 0x0A, CHR 0x0B, CHR 0x0C, CHR 0x0D, CHR 0x20])"

definition int_strip :: "string \<Rightarrow> string" where
  "int_strip s = rev (dropWhile is_int_space (rev (dropWhile is_int_space s)))"

definition max_str_digits :: nat where
  "max_str_digits = 4300"

definition is_digit :: "char \<Rightarrow> bool" where
  "is_digit c = (c \<in> set digits)"

definition digit_value :: "char \<Rightarrow> nat" where
  "digit_value c = (case map_of (zip digits [0..<10]) c of None \<Rightarrow> 0 | Some d \<Rightarrow> d)"

fun digits_val :: "nat \<Rightarrow> string \<Rightarrow> nat option" where
  "digits_val acc [] = Some acc"
| "digits_val acc (c # cs) =
     (if is_digit c then digits_val (10 * acc + digit_value c) cs
      else if c = CHR ''_'' \<and> cs \<noteq> [] \<and> is_digit (hd cs) then digits_val acc cs
      else None)"

definition parse_nat :: "string \<Rightarrow> nat option" where
  "parse_nat s = (case s of [] \<Rightarrow> None
                  | c # cs \<Rightarrow> if is_digit c \<and> length (filter is_digit s) \<le> max_str_digits
                             then digits_val 0 s else None)"

definition py_int :: "string \<Rightarrow> int option" where
  "py_int s =
     (case int_strip s of
        [] \<Rightarrow> None
      | c # cs \<Rightarrow>
          if c = CHR ''-'' then map_option (\<lambda>n. - int n) (parse_nat cs)
          else if c = CHR ''+'' then map_option int (parse_nat cs)
          else map_option int (parse_nat (c # cs)))"


section \<open>The ability record\<close>

definition PCGEN_TAB_SIZE :: nat where
  "PCGEN_TAB_SIZE = 6"

datatype alignment = LG | NG | CG | LN | N | CN | LE | NE | CE

definition ALIGNMENTS :: "alignment list" where
  "ALIGNMENTS = [LG, NG, CG, LN, N, CN, LE, NE, CE]"

fun alignment_name :: "alignment \<Rightarrow> string" where
  "alignment_name LG = ''LG''"
| "alignment_name NG = ''NG''"
| "alignment_name CG = ''CG''"
| "alignment_name LN = ''LN''"
| "alignment_name N = ''N''"
| "alignment_name CN = ''CN''"
| "alignment_name LE = ''LE''"
| "alignment_name NE = ''NE''"
| "alignment_name CE = ''CE''"

text \<open>The keys of the \<open>prestat\<close> dictionary.\<close>

datatype stat = St_bab | St_str | St_dex | St_con | St_int | St_wis | St_cha

fun stat_name :: "stat \<Rightarrow> string" where
  "stat_name St_bab = ''bab''"
| "stat_name St_str = ''str''"
| "stat_name St_dex = ''dex''"
| "stat_name St_con = ''con''"
| "stat_name St_int = ''int''"
| "stat_name St_wis = ''wis''"
| "stat_name St_cha = ''cha''"

datatype error = IndexError | ValueError | Unmodelled

text \<open>
  The attributes of class \<open>Ability\<close>: the dictionaries \<open>fields\<close>, \<open>prerequisites\<close>,
  \<open>prestat\<close> and \<open>prealign\<close>, the list \<open>other_fields\<close> and \<open>mode\<close>. The dictionary
  \<open>tags\<close> is constant and written out where it is read.
\<close>

record ability =
  name :: string
  key :: string
  desc :: string
  ability_type :: string
  ability_subtypes :: "string list"
  mult :: bool
  stack :: bool
  pretext :: string
  race :: string
  feats :: "string list"
  level :: int
  prestat :: "stat \<Rightarrow> int"
  prealign :: "alignment \<Rightarrow> bool"
  other_fields :: "string list"
  mode :: string

text \<open>\<open>Ability.__init__\<close>, the parameters in the order of the source.\<close>

definition Ability ::
  "string \<Rightarrow> string \<Rightarrow> string \<Rightarrow> string list \<Rightarrow> string \<Rightarrow> string list \<Rightarrow>
   int \<Rightarrow> int \<Rightarrow> int \<Rightarrow> int \<Rightarrow> int \<Rightarrow> int \<Rightarrow> int \<Rightarrow> int \<Rightarrow> bool \<Rightarrow> bool \<Rightarrow>
   string option \<Rightarrow> string \<Rightarrow> string list \<Rightarrow> string \<Rightarrow> ability" where
  "Ability name' ability_type' desc' subtypes required_race required_feats
      required_str required_dex required_con required_int required_wis required_cha
      required_bab required_level mult' stack' key' pretext' other_fields' mode' =
     \<lparr> name = strip name',
       key = (case key' of None \<Rightarrow> strip name' | Some k \<Rightarrow> k),
       desc = strip desc',
       ability_type = strip ability_type',
       ability_subtypes = subtypes,
       mult = mult',
       stack = stack',
       pretext = pretext',
       race = strip required_race,
       feats = required_feats,
       level = required_level,
       prestat = (\<lambda>s. case s of St_bab \<Rightarrow> required_bab | St_str \<Rightarrow> required_str
                    | St_dex \<Rightarrow> required_dex | St_con \<Rightarrow> required_con | St_int \<Rightarrow> required_int
                    | St_wis \<Rightarrow> required_wis | St_cha \<Rightarrow> required_cha),
       prealign = (\<lambda>_. False),
       other_fields = map strip other_fields',
       mode = mode' \<rparr>"

text \<open>\<open>Ability.__eq__\<close>\<close>

definition ability_eq :: "ability \<Rightarrow> ability \<Rightarrow> bool" where
  "ability_eq a other = (upper (name a) = upper (name other) \<or> upper (key a) = upper (key other))"

section \<open>Column layout\<close>

definition tab :: string where
  "tab = [CHR 0x09]"

text \<open>\<open>"\t" * n\<close>: empty when \<open>n\<close> is not positive.\<close>

definition tabs :: "int \<Rightarrow> string" where
  "tabs n = replicate (nat n) (CHR 0x09)"

text \<open>\<open>Ability.calculate_tabs_raw\<close>\<close>

definition calculate_tabs_raw :: "string \<Rightarrow> int \<Rightarrow> int \<times> int" where
  "calculate_tabs_raw token field_width =
     (let token' = strip token;
          tabs' = field_width - int (length token' div PCGEN_TAB_SIZE);
          excess_tabs = (if int (length token') > field_width * int PCGEN_TAB_SIZE
                         then int (length token' div PCGEN_TAB_SIZE) - field_width else 0)
      in (tabs', excess_tabs))"

text \<open>
  The loop \<open>while tabs > lo and excess_tabs > 0: tabs -= 1; excess_tabs -= 1\<close>, which
  follows every column (\<open>lo\<close> is 0, or 1 after the category).
\<close>

function catch_up :: "int \<Rightarrow> int \<times> int \<Rightarrow> int \<times> int" where
  "catch_up lo (tabs', excess_tabs) =
     (if tabs' > lo \<and> excess_tabs > 0 then catch_up lo (tabs' - 1, excess_tabs - 1)
      else (tabs', excess_tabs))"
  by pat_completeness auto
termination
  by (relation "measure (\<lambda>(lo, t, e). nat (t - lo))") auto

declare catch_up.simps [simp del]

text \<open>
  The recurring column: measure the token, add its overflow to the ledger, catch up, and
  append a tab, the token and the padding.
\<close>

definition column :: "string \<Rightarrow> int \<Rightarrow> int \<Rightarrow> string \<times> int" where
  "column token field_width excess_tabs =
     (let (t0, et) = calculate_tabs_raw token field_width;
          (t, e) = catch_up 0 (t0, excess_tabs + et)
      in (tab @ token @ tabs t, e))"

text \<open>An absent column: padding only, reduced by the ledger.\<close>

definition padding :: "int \<Rightarrow> int \<Rightarrow> int \<Rightarrow> string \<times> int" where
  "padding lo n excess_tabs = (let (t, e) = catch_up lo (n, excess_tabs) in (tabs t, e))"


section \<open>The column serializer: \<open>Ability.__str__\<close>\<close>

text \<open>The name, padded to six tab stops; a longer name opens the ledger.\<close>

definition name_column :: "ability \<Rightarrow> string \<times> int" where
  "name_column a =
     (name a @ tabs (6 - int (length (name a) div PCGEN_TAB_SIZE)),
      if length (name a) > 6 * PCGEN_TAB_SIZE
      then int ((length (name a) - 6 * PCGEN_TAB_SIZE) div PCGEN_TAB_SIZE) else 0)"

definition key_column :: "ability \<Rightarrow> int \<Rightarrow> string \<times> int" where
  "key_column a excess_tabs =
     (if key a = name a then padding 0 6 excess_tabs
      else (let (t0, et) = calculate_tabs_raw (''KEY:'' @ key a) 6;
                (t, e) = catch_up 0 (t0, excess_tabs + et)
            in (''KEY:'' @ key a @ tabs t, e)))"

definition category_column :: "ability \<Rightarrow> int \<Rightarrow> string \<times> int" where
  "category_column a excess_tabs =
     (if ability_type a = ''Feat''
      then (let (t, e) = catch_up 1 (3, excess_tabs) in (tab @ ''CATEGORY:FEAT'' @ tabs t, e))
      else (tab @ ''CATEGORY:Special Ability'' @ tab, excess_tabs))"

text \<open>
  The type string of a trait, from its first subtype and the race; reading the first
  subtype of an empty list raises \<open>IndexError\<close>.
\<close>

definition trait_type_string :: "string list \<Rightarrow> string \<Rightarrow> error + string" where
  "trait_type_string subtypes race' =
     (case subtypes of
        [] \<Rightarrow> Inl IndexError
      | s0 # _ \<Rightarrow>
          Inr (''TYPE:Trait.''
               @ (if s0 \<in> set [''Combat'', ''Social'', ''Magic'', ''Faith''] then ''BasicTrait.'' else [])
               @ s0 @ ''Trait''
               @ (if count_str s0 ''Race'' > 0 \<and> count_str race' ''None'' = 0
                  then ''.'' @ title race' @ ''Trait'' else [])))"

definition type_string :: "ability \<Rightarrow> error + string" where
  "type_string a =
     (if ability_type a = ''Feat'' then Inr (''TYPE:'' @ join ''.'' (ability_subtypes a))
      else if ability_type a = ''Trait'' then trait_type_string (ability_subtypes a) (race a)
      else Inr ''TYPE:GM_Award.SpecialQuality'')"

definition stats_of_mode :: "string \<Rightarrow> stat list" where
  "stats_of_mode m = [St_con, St_wis, St_cha]
                       @ (if m \<noteq> ''Pathfinder 1e'' then [St_str, St_dex, St_int] else [])"

definition prestat_string :: "ability \<Rightarrow> stat list \<Rightarrow> string" where
  "prestat_string a stats_required =
     (if length stats_required > 0
      then tab @ ''PRESTAT:'' @ str_nat (length stats_required)
           @ concat (map (\<lambda>s. '','' @ upper (stat_name s) @ ''='' @ str_int (prestat a s))
                         stats_required)
      else [])"

definition premult_dex :: "int \<Rightarrow> string" where
  "premult_dex v = ''PREMULT:1,[PREVARGTEQ:PreStatScore_DEX,'' @ str_int v
                   @ ''],[PREVARGTEQ:FeatDexRequirement,'' @ str_int v @ '']''"

definition premult_str :: "int \<Rightarrow> string" where
  "premult_str v = ''PREVARGTEQ:PreStatScore_STR,'' @ str_int v"

definition premult_int :: "int \<Rightarrow> string" where
  "premult_int v = ''PREMULT: 1, [PREVARGTEQ: PreStatScore_INT, '' @ str_int v
                   @ ''], [PREVARGTEQ: CombatFeatIntRequirement, '' @ str_int v @ '']''"

text \<open>The three stat entries synthesized under Pathfinder, each appended when no field
  holds its variable name.\<close>

definition stat_other_fields :: "ability \<Rightarrow> string list \<Rightarrow> string list" where
  "stat_other_fields a fs =
     (let fs1 = (if prestat a St_dex > 0 \<and> \<not> list_ex (contains ''PreStatScore_DEX'') fs
                 then fs @ [tab @ premult_dex (prestat a St_dex)] else fs);
          fs2 = (if prestat a St_str > 0 \<and> \<not> list_ex (contains ''PreStatScore_STR'') fs1
                 then fs1 @ [tab @ premult_str (prestat a St_str)] else fs1);
          fs3 = (if prestat a St_int > 0 \<and> \<not> list_ex (contains ''PreStatScore_INT'') fs2
                 then fs2 @ [tab @ premult_int (prestat a St_int)] else fs2)
      in fs3)"

definition pathfinder_stats :: "ability \<Rightarrow> bool" where
  "pathfinder_stats a = (mode a = ''Pathfinder 1e'' \<and>
       (prestat a St_dex > 0 \<or> prestat a St_str > 0 \<or> prestat a St_int > 0))"

definition stats_column :: "ability \<Rightarrow> string" where
  "stats_column a =
     (let stats_required = filter (\<lambda>s. prestat a s > 0) (stats_of_mode (mode a))
      in prestat_string a stats_required
         @ (if pathfinder_stats a then tabs 4
            else if length stats_required = 0 then tabs 4 else []))"

definition disallowed_alignments :: "ability \<Rightarrow> alignment list" where
  "disallowed_alignments a = filter (\<lambda>al. \<not> prealign a al) ALIGNMENTS"

definition align_string :: "ability \<Rightarrow> string" where
  "align_string a =
     (if length (disallowed_alignments a) < 9
      then ''!PREALIGN:'' @ join '','' (map alignment_name (disallowed_alignments a)) else [])"

definition premult_race :: "string \<Rightarrow> string" where
  "premult_race r = ''PREMULT:1,[PRERACE:1,'' @ r
                    @ ''],[PREABILITY:1,CATEGORY=Special Ability,Adoptive Race ~ '' @ r @ '']''"

definition is_race_premult :: "string \<Rightarrow> bool" where
  "is_race_premult f = (contains ''PREMULT:1,'' f \<and> contains ''PRERACE:1,'' f)"

text \<open>Every field that holds both fragments is overwritten; with none, one is appended.\<close>

definition race_other_fields :: "string \<Rightarrow> string list \<Rightarrow> string list" where
  "race_other_fields r fs =
     (if list_ex is_race_premult fs
      then map (\<lambda>f. if is_race_premult f then premult_race r else f) fs
      else fs @ [premult_race r])"

definition race_column :: "ability \<Rightarrow> int \<Rightarrow> string \<times> int" where
  "race_column a excess_tabs =
     (if race a \<noteq> ''None''
      then (if ability_type a = ''Trait'' then (tabs (4 + 1), excess_tabs)
            else column (''PRERACE:1,'' @ race a) 4 excess_tabs)
      else padding 0 (4 + 1) excess_tabs)"

definition is_bypass_premult :: "string \<Rightarrow> bool" where
  "is_bypass_premult f = (count_str f ''PREMULT:1,['' > 0
                          \<and> count_str f ''PREVAREQ:BypassTraitRestriction,1'' > 0)"

definition premult_bypass :: "string \<Rightarrow> string \<Rightarrow> string" where
  "premult_bypass k s0 = ''PREMULT:1,[PREABILITY:1,CATEGORY=Special Ability,'' @ k
       @ ''],[PREVAREQ:BypassTraitRestriction,1],[!PREABILITY:1,CATEGORY:Special Ability,TYPE.''
       @ s0 @ ''Trait]''"

definition bypass_other_fields :: "ability \<Rightarrow> string list \<Rightarrow> error + string list" where
  "bypass_other_fields a fs =
     (if list_ex is_bypass_premult fs then Inr fs
      else (case ability_subtypes a of
              [] \<Rightarrow> Inl IndexError
            | s0 # _ \<Rightarrow> Inr (fs @ [premult_bypass (key a) s0])))"

definition bab_column :: "ability \<Rightarrow> int \<Rightarrow> string \<times> int" where
  "bab_column a excess_tabs =
     (if prestat a St_bab > 0 then (tab @ ''PRETOTALAB:'' @ str_int (prestat a St_bab), excess_tabs)
      else padding 0 3 excess_tabs)"

definition level_column :: "ability \<Rightarrow> int \<Rightarrow> string \<times> int" where
  "level_column a excess_tabs =
     (if level a > 0 then (tab @ ''PREVARGTEQ:TL,'' @ str_int (level a), excess_tabs)
      else padding 0 4 excess_tabs)"

definition feats_string :: "string list \<Rightarrow> string" where
  "feats_string fts =
     (if length fts > 0
      then ''PREABILITY:'' @ str_nat (length fts) @ '',CATEGORY=FEAT''
           @ concat (map (\<lambda>f. '','' @ f) fts)
      else [])"

definition choose_other_fields :: "string list \<Rightarrow> string list" where
  "choose_other_fields fs =
     (if list_ex (\<lambda>f. count_str f ''CHOOSE'' > 0) fs then fs else fs @ [''CHOOSE:NOCHOICE''])"

definition cost_other_fields :: "string list \<Rightarrow> string list" where
  "cost_other_fields fs =
     (if list_ex (\<lambda>f. count_str f ''COST:'' > 0) fs then fs else fs @ [''COST:0''])"

definition yes_no :: "bool \<Rightarrow> string" where
  "yes_no b = (if b then ''YES'' else ''NO'')"

text \<open>The closing loop over fields: each non-blank one, stripped, after two tabs.\<close>

definition fields_string :: "string list \<Rightarrow> string" where
  "fields_string fs =
     concat (map (\<lambda>f. tab @ tab @ strip f) (filter (\<lambda>f. length (strip f) > 0) fs))"

text \<open>
  The list \<open>other_fields\<close> as the serializer leaves it: the entries are synthesized in
  the order of the source (stats, trait race, trait bypass, no-choice, zero cost).
\<close>

definition synthesize :: "ability \<Rightarrow> error + string list" where
  "synthesize a =
     (let fs1 = (if pathfinder_stats a then stat_other_fields a (other_fields a)
                 else other_fields a);
          fs2 = (if race a \<noteq> ''None'' \<and> ability_type a = ''Trait''
                 then race_other_fields (race a) fs1 else fs1)
      in case (if ability_type a = ''Trait'' then bypass_other_fields a fs2 else Inr fs2) of
           Inl e \<Rightarrow> Inl e
         | Inr fs3 \<Rightarrow>
             (let fs4 = (if mult a then choose_other_fields fs3 else fs3);
                  fs5 = (if ability_type a = ''GM_Award'' then cost_other_fields fs4 else fs4)
              in Inr fs5))"

text \<open>The line itself, given the type string and the final list of fields.\<close>

definition ability_line :: "ability \<Rightarrow> string \<Rightarrow> string list \<Rightarrow> string" where
  "ability_line a ts fs =
     (let (s1, e1) = name_column a;
          (s2, e2) = key_column a e1;
          (s3, e3) = category_column a e2;
          (s4, e4) = column ts 4 e3;
          s5 = stats_column a;
          (s6, e6) = column (align_string a) 5 e4;
          (s7, e7) = race_column a e6;
          (s8, e8) = bab_column a e7;
          (s9, e9) = level_column a e8;
          (s10, e10) = column (feats_string (feats a)) 11 e9;
          s11 = tab @ ''MULT:'' @ yes_no (mult a) @ tab;
          s12 = tab @ ''STACK:'' @ yes_no (stack a) @ tab;
          s13 = (if length (desc a) > 0 then tab @ tab @ ''DESC:'' @ desc a else []);
          s14 = (if length (pretext a) > 0 then tab @ ''PRETEXT:'' @ pretext a else [])
      in concat [s1, s2, s3, s4, s5, s6, s7, s8, s9, s10, s11, s12, s13, s14, fields_string fs])"

text \<open>
  \<open>Ability.__str__\<close>: the line, and the record with the list \<open>other_fields\<close> as the call
  leaves it. The first subtype of a trait is read before anything is appended, so a call
  that raises has changed nothing.
\<close>

definition ability_str :: "ability \<Rightarrow> error + (string \<times> ability)" where
  "ability_str a =
     (case type_string a of
        Inl e \<Rightarrow> Inl e
      | Inr ts \<Rightarrow>
         (case synthesize a of
            Inl e \<Rightarrow> Inl e
          | Inr fs \<Rightarrow> Inr (ability_line a ts fs, a\<lparr>other_fields := fs\<rparr>)))"

section \<open>The diff generator: class \<open>Mod\<close>\<close>

text \<open>
  Abilities are objects: a \<open>Mod\<close> holds references to its two abilities, and its
  \<open>__str__\<close> appends to the list \<open>other_fields\<close> of the modified one. The store maps
  an address to the ability that lives there.
\<close>

type_synonym addr = nat

type_synonym heap = "addr \<Rightarrow> ability"

record Mod =
  base_ability :: addr
  modified_ability :: addr
  mod_mode :: string
  mod_key :: string

text \<open>\<open>Mod.__init__\<close>: no comparison of the two keys is made.\<close>

definition Mod_init :: "heap \<Rightarrow> addr \<Rightarrow> addr \<Rightarrow> Mod" where
  "Mod_init h b m = \<lparr> base_ability = b, modified_ability = m,
                      mod_mode = mode (h m), mod_key = key (h b) \<rparr>"

definition mod_header :: "ability \<Rightarrow> string" where
  "mod_header m =
     (if ability_type m = ''Feat'' then ''CATEGORY=FEAT|'' @ key m @ ''.MOD''
      else ''CATEGORY=Special Ability|'' @ key m @ ''.MOD'')"

definition header_column :: "ability \<Rightarrow> string \<times> int" where
  "header_column m =
     (let (t0, et) = calculate_tabs_raw (mod_header m) 11
      in (mod_header m @ tabs (t0 + 1), 0 + et))"

text \<open>The two loops over the subtypes.\<close>

definition subtype_removed :: "ability \<Rightarrow> ability \<Rightarrow> bool" where
  "subtype_removed base m =
     list_ex (\<lambda>s. s \<notin> set (ability_subtypes m)) (ability_subtypes base)"

definition added_subtypes :: "ability \<Rightarrow> ability \<Rightarrow> string list" where
  "added_subtypes base m =
     filter (\<lambda>s. s \<notin> set (ability_subtypes base) \<or> subtype_removed base m) (ability_subtypes m)"

text \<open>The race of a racial trait changed; the first subtype of the base is read only when
  the two conditions before it hold.\<close>

definition race_changed_on_race_trait :: "ability \<Rightarrow> ability \<Rightarrow> error + bool" where
  "race_changed_on_race_trait base m =
     (if ability_type base = ''Trait'' \<and> race m \<noteq> race base
      then (case ability_subtypes base of
              [] \<Rightarrow> Inl IndexError
            | s0 # _ \<Rightarrow> Inr (count_str s0 ''Race'' > 0))
      else Inr False)"

definition mod_type_string :: "ability \<Rightarrow> ability \<Rightarrow> error + string" where
  "mod_type_string base m =
     (if ability_type base = ''Feat'' then Inr (''TYPE:'' @ join ''.'' (added_subtypes base m))
      else if ability_type base = ''Trait'' then trait_type_string (ability_subtypes m) (race m)
      else Inr ''TYPE:GM_Award.SpecialQuality'')"

definition prestat_keys :: "stat list" where
  "prestat_keys = [St_bab, St_str, St_dex, St_con, St_int, St_wis, St_cha]"

definition clear_prerequisites :: "ability \<Rightarrow> ability \<Rightarrow> bool" where
  "clear_prerequisites base m =
     (race base \<noteq> race m \<or> level base \<noteq> level m \<or> pretext base \<noteq> pretext m
      \<or> list_ex (\<lambda>s. prestat base s \<noteq> prestat m s \<and> prestat base s \<noteq> 0) prestat_keys
      \<or> list_ex (\<lambda>al. prealign base al \<noteq> prealign m al) ALIGNMENTS
      \<or> list_ex (\<lambda>f. f \<notin> set (feats m)) (feats base))"

text \<open>A prerequisite of the modified ability is written when the group was cleared or the
  base had none.\<close>

definition mod_stats_required :: "bool \<Rightarrow> string \<Rightarrow> ability \<Rightarrow> ability \<Rightarrow> stat list" where
  "mod_stats_required clear md base m =
     filter (\<lambda>s. prestat m s > 0 \<and> (clear \<or> prestat base s = 0)) (stats_of_mode md)"

definition mod_pathfinder_stats :: "string \<Rightarrow> ability \<Rightarrow> bool" where
  "mod_pathfinder_stats md m = (md = ''Pathfinder 1e'' \<and>
       (prestat m St_dex > 0 \<or> prestat m St_str > 0 \<or> prestat m St_int > 0))"

definition mod_stats_column :: "bool \<Rightarrow> string \<Rightarrow> ability \<Rightarrow> ability \<Rightarrow> string" where
  "mod_stats_column clear md base m =
     (let stats_required = mod_stats_required clear md base m
      in prestat_string m stats_required
         @ (if mod_pathfinder_stats md m then tabs 4
            else if length stats_required = 0 then tabs 4 else []))"

text \<open>One stat entry: every field that names the variable is overwritten; with none, the
  entry is appended.\<close>

definition replace_or_append :: "(string \<Rightarrow> bool) \<Rightarrow> string \<Rightarrow> string list \<Rightarrow> string list" where
  "replace_or_append p entry fs =
     (if list_ex p fs then map (\<lambda>f. if p f then entry else f) fs else fs @ [entry])"

definition mod_stat_entry :: "bool \<Rightarrow> ability \<Rightarrow> ability \<Rightarrow> stat \<Rightarrow> string \<Rightarrow> string list \<Rightarrow> string list" where
  "mod_stat_entry clear base m s entry fs =
     (if prestat m s > 0 \<and> (clear \<or> prestat base s = 0)
      then replace_or_append (contains (''PreStatScore_'' @ upper (stat_name s))) entry fs
      else fs)"

definition mod_stat_other_fields :: "bool \<Rightarrow> ability \<Rightarrow> ability \<Rightarrow> string list \<Rightarrow> string list" where
  "mod_stat_other_fields clear base m fs =
     mod_stat_entry clear base m St_int (premult_int (prestat m St_int))
       (mod_stat_entry clear base m St_dex (premult_dex (prestat m St_dex))
         (mod_stat_entry clear base m St_str (premult_str (prestat m St_str)) fs))"

definition mod_align_string :: "bool \<Rightarrow> ability \<Rightarrow> string" where
  "mod_align_string clear m =
     (if length (disallowed_alignments m) < 9 \<and> clear
      then ''!PREALIGN:'' @ join '','' (map alignment_name (disallowed_alignments m)) else [])"

definition mod_race_emitted :: "bool \<Rightarrow> ability \<Rightarrow> ability \<Rightarrow> bool" where
  "mod_race_emitted clear base m = (race m \<noteq> ''None'' \<and> (clear \<or> race base = ''None''))"

definition mod_race_column :: "bool \<Rightarrow> ability \<Rightarrow> ability \<Rightarrow> int \<Rightarrow> string \<times> int" where
  "mod_race_column clear base m excess_tabs =
     (if mod_race_emitted clear base m
      then (if ability_type m = ''Trait'' then (tabs (4 + 1), excess_tabs)
            else column (''PRERACE:1,'' @ race m) 4 excess_tabs)
      else padding 0 (4 + 1) excess_tabs)"

text \<open>The bypass entry of a trait. Without a clear, the first subtypes of both abilities
  are compared, and either list may be empty.\<close>

definition mod_bypass_wanted :: "bool \<Rightarrow> ability \<Rightarrow> ability \<Rightarrow> error + bool" where
  "mod_bypass_wanted clear base m =
     (if ability_type m = ''Trait''
      then (if clear then Inr True
            else (case (ability_subtypes m, ability_subtypes base) of
                    (s0 # _, b0 # _) \<Rightarrow> Inr (s0 \<noteq> b0)
                  | _ \<Rightarrow> Inl IndexError))
      else Inr False)"

definition mod_bab_column :: "bool \<Rightarrow> ability \<Rightarrow> ability \<Rightarrow> int \<Rightarrow> string \<times> int" where
  "mod_bab_column clear base m excess_tabs =
     (if prestat m St_bab > 0 \<and> (clear \<or> prestat base St_bab = 0)
      then (tab @ ''PRETOTALAB:'' @ str_int (prestat m St_bab), excess_tabs)
      else padding 0 3 excess_tabs)"

definition mod_level_column :: "bool \<Rightarrow> ability \<Rightarrow> ability \<Rightarrow> int \<Rightarrow> string \<times> int" where
  "mod_level_column clear base m excess_tabs =
     (if level m > 0 \<and> (clear \<or> level base = 0)
      then (tab @ ''PREVARGTEQ:TL,'' @ str_int (level m), excess_tabs)
      else padding 0 4 excess_tabs)"

definition added_feats :: "bool \<Rightarrow> ability \<Rightarrow> ability \<Rightarrow> string list" where
  "added_feats clear base m = filter (\<lambda>f. f \<notin> set (feats base) \<or> clear) (feats m)"

definition mod_feats_string :: "string list \<Rightarrow> string" where
  "mod_feats_string fts =
     (if length fts > 0
      then ''PREABILITY:'' @ str_nat (length fts) @ '',CATEGORY=FEAT,'' @ join '','' fts
      else [])"

definition mod_pretext_string :: "bool \<Rightarrow> ability \<Rightarrow> ability \<Rightarrow> string" where
  "mod_pretext_string clear base m =
     (if length (pretext m) > 0 \<and> (clear \<or> length (pretext base) = 0)
      then tab @ ''PRETEXT:'' @ pretext m else [])"

definition flag_string :: "string \<Rightarrow> bool \<Rightarrow> bool \<Rightarrow> string" where
  "flag_string tag' new old =
     (if new \<and> \<not> old then tab @ tag' @ ''YES'' @ tab
      else if \<not> new \<and> old then tab @ tag' @ ''NO'' @ tab
      else tabs 3)"

definition mod_desc_string :: "ability \<Rightarrow> ability \<Rightarrow> string" where
  "mod_desc_string base m =
     (if desc m \<noteq> desc base then tab @ tab @ ''DESC:.clear'' @ tab @ ''DESC:'' @ desc m else [])"

text \<open>
  The list \<open>other_fields\<close> of the modified ability as the call leaves it, with the error
  that stopped it, if any: the stat and race entries are already in place when the
  bypass entry reads the first subtype.
\<close>

definition mod_synthesize ::
  "bool \<Rightarrow> string \<Rightarrow> ability \<Rightarrow> ability \<Rightarrow> string list \<times> error option" where
  "mod_synthesize clear md base m =
     (let fs1 = (if mod_pathfinder_stats md m
                 then mod_stat_other_fields clear base m (other_fields m) else other_fields m);
          fs2 = (if mod_race_emitted clear base m \<and> ability_type m = ''Trait''
                 then race_other_fields (race m) fs1 else fs1)
      in case mod_bypass_wanted clear base m of
           Inl e \<Rightarrow> (fs2, Some e)
         | Inr wanted \<Rightarrow>
            (case (if wanted then bypass_other_fields m fs2 else Inr fs2) of
               Inl e \<Rightarrow> (fs2, Some e)
             | Inr fs3 \<Rightarrow>
                ((if mult m \<and> \<not> mult base then choose_other_fields fs3 else fs3), None)))"

text \<open>The closing loops: the fields of the modified ability that the base lacks, and after
  a clear also those with \<open>PRE\<close> within their first four characters.\<close>

definition added_other_fields :: "bool \<Rightarrow> string list \<Rightarrow> string list \<Rightarrow> string list" where
  "added_other_fields clear base_fields fs =
     filter (\<lambda>f. f \<notin> set base_fields \<or> (clear \<and> count_str (take 4 f) ''PRE'' > 0)) fs"

text \<open>The patch line, given what the comparisons found, the type string and the two lists
  of fields read by the closing loops.\<close>

definition mod_line ::
  "bool \<Rightarrow> bool \<Rightarrow> string \<Rightarrow> bool \<Rightarrow> string \<Rightarrow> ability \<Rightarrow> ability \<Rightarrow> string list \<Rightarrow> string list
   \<Rightarrow> string" where
  "mod_line clear_subtypes typed ts clear md base m base_fields fs =
     (let (s1, e1) = header_column m;
          (s2, e2) = (if clear_subtypes then (tab @ ''TYPE:.clear'' @ tab, e1)
                      else padding 1 3 e1);
          (s3, e3) = (if typed then column ts 5 e2 else (tabs (5 + 1), e2));
          s4 = (if clear then tab @ ''PRE:.clear'' @ tab else tabs 3);
          s5 = mod_stats_column clear md base m;
          (s6, e6) = column (mod_align_string clear m) 5 e3;
          (s7, e7) = mod_race_column clear base m e6;
          (s8, e8) = mod_bab_column clear base m e7;
          (s9, e9) = mod_level_column clear base m e8;
          (s10, e10) = column (mod_feats_string (added_feats clear base m)) 11 e9;
          s11 = mod_pretext_string clear base m;
          s12 = flag_string ''MULT:'' (mult m) (mult base);
          s13 = flag_string ''STACK:'' (stack m) (stack base);
          s14 = mod_desc_string base m
      in concat [s1, s2, s3, s4, s5, s6, s7, s8, s9, s10, s11, s12, s13, s14,
                 fields_string (added_other_fields clear base_fields fs)])"

text \<open>
  \<open>Mod.__str__\<close> on the two abilities. \<open>same\<close> says that both references are one
  object, so that the base's \<open>other_fields\<close> read by the closing loop is the list just
  updated. The result is the line or the error, and the modified ability as left behind.
\<close>

definition mod_str_on :: "bool \<Rightarrow> string \<Rightarrow> ability \<Rightarrow> ability \<Rightarrow> (error + string) \<times> ability" where
  "mod_str_on same md base m =
     (case race_changed_on_race_trait base m of
        Inl e \<Rightarrow> (Inl e, m)
      | Inr rc \<Rightarrow>
         (let clear_subtypes = (subtype_removed base m \<or> rc);
              typed = (length (added_subtypes base m) > 0 \<or> clear_subtypes)
          in case (if typed then mod_type_string base m else Inr []) of
               Inl e \<Rightarrow> (Inl e, m)
             | Inr ts \<Rightarrow>
                (let clear = clear_prerequisites base m;
                     (fs, err) = mod_synthesize clear md base m;
                     m' = m\<lparr>other_fields := fs\<rparr>
                 in case err of
                      Some e \<Rightarrow> (Inl e, m')
                    | None \<Rightarrow>
                       (Inr (mod_line clear_subtypes typed ts clear md base m
                               (if same then fs else other_fields base) fs),
                        m'))))"

text \<open>\<open>Mod.__str__\<close> on the store.\<close>

definition Mod_str :: "heap \<Rightarrow> Mod \<Rightarrow> (error + string) \<times> heap" where
  "Mod_str h md =
     (let b = base_ability md; m = modified_ability md;
          (res, m') = mod_str_on (b = m) (mod_mode md) (h b) (h m)
      in (res, h(m := m')))"


section \<open>The line parser: \<open>Ability.generate_ability\<close>\<close>

definition ebind :: "error + 'a \<Rightarrow> ('a \<Rightarrow> error + 'b) \<Rightarrow> error + 'b" where
  "ebind x f = (case x of Inl e \<Rightarrow> Inl e | Inr v \<Rightarrow> f v)"

text \<open>\<open>xs[1]\<close>\<close>

definition index1 :: "'a list \<Rightarrow> error + 'a" where
  "index1 xs = (case xs of _ # y # _ \<Rightarrow> Inr y | _ \<Rightarrow> Inl IndexError)"

text \<open>\<open>token.split(":", maxsplit=1)[1]\<close>\<close>

definition after_colon :: "string \<Rightarrow> error + string" where
  "after_colon token = index1 (split1 token (CHR '':''))"

definition to_int :: "string \<Rightarrow> error + int" where
  "to_int s = (case py_int s of None \<Rightarrow> Inl ValueError | Some i \<Rightarrow> Inr i)"

text \<open>
  The dictionary \<open>ability_dict\<close>, one field for each key the parser creates. The key
  \<open>level\<close> exists only once a level token was read.
\<close>

record ability_dict =
  d_name :: string
  d_key :: string
  d_type :: string
  d_subtypes :: "string list"
  d_align :: "alignment \<Rightarrow> bool"
  d_race :: string
  d_stat :: "stat \<Rightarrow> int"
  d_mult :: bool
  d_stack :: bool
  d_desc :: string
  d_feats :: "string list"
  d_pretext :: string
  d_other_fields :: "string list"
  d_level :: "int option"

definition initial_dict :: "string \<Rightarrow> ability_dict" where
  "initial_dict n =
     \<lparr> d_name = n, d_key = n, d_type = [], d_subtypes = [], d_align = (\<lambda>_. False),
       d_race = ''None'', d_stat = (\<lambda>_. 0), d_mult = False, d_stack = False, d_desc = [],
       d_feats = [], d_pretext = [], d_other_fields = [], d_level = None \<rparr>"

definition alignment_of_name :: "string \<Rightarrow> alignment option" where
  "alignment_of_name s = find (\<lambda>al. alignment_name al = s) ALIGNMENTS"

definition stat_of_name :: "string \<Rightarrow> stat option" where
  "stat_of_name s = find (\<lambda>st. stat_name st = s) prestat_keys"

text \<open>
  The keys of the dictionary that hold something other than an alignment flag or a
  number. A token that names one of them as an alignment or as a stat overwrites that
  entry with a value of another type; the model does not follow the retyped entry and
  answers \<open>Unmodelled\<close>.
\<close>

definition text_keys :: "string list" where
  "text_keys = [''name'', ''key'', ''type'', ''subtypes'', ''race'', ''mult'', ''stack'', ''desc'',
                ''feats'', ''pretext'', ''other_fields'']"

text \<open>\<open>ability_dict[subtoken] = False\<close>\<close>

definition set_false :: "string \<Rightarrow> ability_dict \<Rightarrow> error + ability_dict" where
  "set_false k d =
     (case alignment_of_name k of
        Some al \<Rightarrow> Inr (d\<lparr>d_align := (d_align d)(al := False)\<rparr>)
      | None \<Rightarrow> if k \<in> set text_keys \<or> k \<in> set (map stat_name prestat_keys) \<or> k = ''level''
                then Inl Unmodelled else Inr d)"

fun set_all_false :: "string list \<Rightarrow> ability_dict \<Rightarrow> error + ability_dict" where
  "set_all_false [] d = Inr d"
| "set_all_false (k # ks) d = ebind (set_false k d) (set_all_false ks)"

text \<open>\<open>ability_dict[key] = v\<close> for a number \<open>v\<close>\<close>

definition set_number :: "string \<Rightarrow> int \<Rightarrow> ability_dict \<Rightarrow> error + ability_dict" where
  "set_number k v d =
     (case stat_of_name k of
        Some st \<Rightarrow> Inr (d\<lparr>d_stat := (d_stat d)(st := v)\<rparr>)
      | None \<Rightarrow> if k = ''level'' then Inr (d\<lparr>d_level := Some v\<rparr>)
                else if k \<in> set text_keys \<or> alignment_of_name k \<noteq> None then Inl Unmodelled
                else Inr d)"

text \<open>The loop over the subtokens of a type token.\<close>

definition clean_subtype :: "string \<Rightarrow> string" where
  "clean_subtype subtoken =
     replace_str (replace_str (replace_str subtoken ''Trait'' []) ''SpecialQuality'' []) ''GM_Award'' []"

fun add_subtypes :: "string list \<Rightarrow> string list \<Rightarrow> string list" where
  "add_subtypes [] subtypes = subtypes"
| "add_subtypes (subtoken # rest) subtypes =
     (let subtype = clean_subtype subtoken
      in add_subtypes rest
           (if length subtype > 0 \<and> count_str subtype ''Basic'' = 0
                \<and> count_list subtypes ''Race'' = 0
            then subtypes @ [subtype] else subtypes))"

text \<open>\<open>Ability.parse_premult\<close>\<close>

definition parse_premult :: "string \<Rightarrow> string list" where
  "parse_premult token =
     map (\<lambda>t. replace_str (replace_str t ''['' []) '']'' []) (split token ''],['')"

text \<open>The race named by a race prerequisite: the second comma-separated value, without
  percent signs.\<close>

definition race_of :: "string \<Rightarrow> error + string" where
  "race_of token =
     ebind (after_colon token) (\<lambda>v.
     ebind (index1 (split v '','')) (\<lambda>r. Inr (replace_str r ''%'' [])))"

text \<open>The number after the first comma of the value of a variable prerequisite.\<close>

definition second_int :: "string \<Rightarrow> error + int" where
  "second_int token =
     ebind (after_colon token) (\<lambda>v. ebind (index1 (split v '','')) to_int)"

text \<open>The loop over the conditions of a compound prerequisite; the flag is \<open>parseable\<close>.\<close>

fun premult_subtokens :: "string list \<Rightarrow> bool \<times> ability_dict \<Rightarrow> error + (bool \<times> ability_dict)" where
  "premult_subtokens [] (parseable, d) = Inr (parseable, d)"
| "premult_subtokens (subtoken # rest) (parseable, d) =
     (if startswith subtoken ''PRERACE:''
      then ebind (race_of subtoken) (\<lambda>r.
             if count_str (d_race d) ''None'' > 0
             then premult_subtokens rest (True, d\<lparr>d_race := r\<rparr>)
             else premult_subtokens rest (parseable, d))
      else if startswith subtoken ''PREVARGTEQ:'' \<and> count_str subtoken ''PreStatScore_DEX'' > 0
      then ebind (second_int subtoken) (\<lambda>v.
             premult_subtokens rest (True, d\<lparr>d_stat := (d_stat d)(St_dex := v)\<rparr>))
      else if startswith subtoken ''PREVARGTEQ:'' \<and> count_str subtoken ''PreStatScore_INT'' > 0
      then ebind (second_int subtoken) (\<lambda>v.
             premult_subtokens rest (True, d\<lparr>d_stat := (d_stat d)(St_int := v)\<rparr>))
      else premult_subtokens rest (parseable, d))"

text \<open>One pass of the loop over the tokens: the chain of prefix tests, in source order.\<close>

definition parse_token :: "string \<Rightarrow> ability_dict \<Rightarrow> error + ability_dict" where
  "parse_token token0 d =
     (let token = strip token0 in
      if startswith token ''CATEGORY:''
      then Inr (if count_str token ''FEAT'' > 0 then d\<lparr>d_type := ''Feat''\<rparr> else d)
      else if startswith token ''KEY:''
      then ebind (after_colon token) (\<lambda>v. Inr (d\<lparr>d_key := v\<rparr>))
      else if startswith token ''TYPE:''
      then (let d1 = (if count_str token ''Trait'' > 0 \<and> count_str token ''RacialTrait'' = 0
                      then d\<lparr>d_type := ''Trait''\<rparr>
                      else if count_str token ''GM_Award'' > 0 then d\<lparr>d_type := ''GM_Award''\<rparr>
                      else d)
            in ebind (after_colon token) (\<lambda>v.
                 Inr (d1\<lparr>d_subtypes := add_subtypes (split v ''.'') (d_subtypes d1)\<rparr>)))
      else if startswith token ''!PREALIGN:''
      then ebind (after_colon token) (\<lambda>v.
             set_all_false (split v '','') (d\<lparr>d_align := (\<lambda>_. True)\<rparr>))
      else if startswith token ''PRERACE:''
      then ebind (race_of token) (\<lambda>r. Inr (d\<lparr>d_race := r\<rparr>))
      else if startswith token ''PRESTAT:''
      then ebind (after_colon token) (\<lambda>v.
           ebind (index1 (split v '','')) (\<lambda>st.
           ebind (index1 (split st ''='')) (\<lambda>num.
           ebind (to_int num) (\<lambda>i.
             set_number (lower (hd (split st ''=''))) i d))))
      else if startswith token ''PRETOTALAB:''
      then ebind (after_colon token) (\<lambda>v.
           ebind (to_int v) (\<lambda>i. Inr (d\<lparr>d_stat := (d_stat d)(St_bab := i)\<rparr>)))
      else if startswith token ''PREABILITY:'' \<and> count_str token ''CATEGORY=FEAT'' > 0
      then ebind (after_colon token) (\<lambda>v. Inr (d\<lparr>d_feats := drop 2 (split v '','')\<rparr>))
      else if startswith token ''DESC:''
      then ebind (after_colon token) (\<lambda>v. Inr (d\<lparr>d_desc := v\<rparr>))
      else if startswith token ''MULT:''
      then ebind (after_colon token) (\<lambda>v. Inr (d\<lparr>d_mult := (count_str (upper v) ''YES'' > 0)\<rparr>))
      else if startswith token ''STACK:''
      then ebind (after_colon token) (\<lambda>v. Inr (d\<lparr>d_stack := (count_str (upper v) ''YES'' > 0)\<rparr>))
      else if startswith token ''PREMULT:''
      then ebind (after_colon token) (\<lambda>v.
           ebind (index1 (split1 v (CHR '',''))) (\<lambda>token_value.
           ebind (premult_subtokens (parse_premult token_value) (False, d)) (\<lambda>(parseable, d1).
             Inr (if parseable then d1
                  else d1\<lparr>d_other_fields := d_other_fields d1 @ [token]\<rparr>))))
      else if startswith token ''PREVARGTEQ:'' \<and> count_str token ''PreStatScore_STR'' > 0
      then ebind (second_int token) (\<lambda>i. Inr (d\<lparr>d_stat := (d_stat d)(St_str := i)\<rparr>))
      else if startswith token ''PREVARGTEQ:TL''
      then ebind (index1 (split1 token (CHR '',''))) (\<lambda>v.
           ebind (to_int v) (\<lambda>i. Inr (d\<lparr>d_level := Some i\<rparr>)))
      else if startswith token ''PRETEXT:''
      then ebind (after_colon token) (\<lambda>v. Inr (d\<lparr>d_pretext := v\<rparr>))
      else Inr (d\<lparr>d_other_fields := d_other_fields d @ [token]\<rparr>))"

fun parse_tokens :: "string list \<Rightarrow> ability_dict \<Rightarrow> error + ability_dict" where
  "parse_tokens [] d = Inr d"
| "parse_tokens (token # rest) d = ebind (parse_token token d) (parse_tokens rest)"

text \<open>
  The ability built from the dictionary. The constructor is called without
  \<open>required_level\<close>, \<open>key\<close> and \<open>mode\<close>, which take their defaults; the key and the
  alignment flags are assigned afterwards.
\<close>

definition ability_of_dict :: "ability_dict \<Rightarrow> ability" where
  "ability_of_dict d =
     (Ability (d_name d) (d_type d) (d_desc d) (d_subtypes d) (d_race d) (d_feats d)
        (d_stat d St_str) (d_stat d St_dex) (d_stat d St_con) (d_stat d St_int)
        (d_stat d St_wis) (d_stat d St_cha) (d_stat d St_bab) 0 (d_mult d) (d_stack d)
        None (d_pretext d) (d_other_fields d) ''Pathfinder 1e'')
       \<lparr> key := d_key d, prealign := d_align d \<rparr>"

definition generate_ability :: "string \<Rightarrow> error + ability option" where
  "generate_ability lst_string =
     (if startswith (strip lst_string) ''#'' then Inr None
      else (case filter (\<lambda>t. t \<noteq> []) (split lst_string tab) of
              [] \<Rightarrow> Inl IndexError
            | n # tokens \<Rightarrow>
                ebind (parse_tokens tokens (initial_dict n)) (\<lambda>d.
                  if length (d_type d) > 0 then Inr (Some (ability_of_dict d)) else Inr None)))"


section \<open>The collection store: \<open>AbilityGenerator\<close>\<close>

text \<open>The test of \<open>add_ability\<close> that decides whether the overwrite question is asked.\<close>

definition duplicate_check :: "ability \<Rightarrow> ability \<Rightarrow> bool" where
  "duplicate_check a ability' = (name a = name ability' \<or> key a = key ability')"

text \<open>\<open>xs.remove(a)\<close>: the first element equal to \<open>a\<close> under \<open>__eq__\<close> is dropped.\<close>

fun list_remove :: "ability \<Rightarrow> ability list \<Rightarrow> ability list" where
  "list_remove a [] = []"
| "list_remove a (x # xs) = (if ability_eq x a then xs else x # list_remove a xs)"

text \<open>
  \<open>AbilityGenerator.add_ability\<close> on the list of the current mode; \<open>answer\<close> is what the
  user replies if asked. The result says whether the question was asked. The list box of
  the window is not modelled.
\<close>

definition add_ability :: "bool \<Rightarrow> ability list \<Rightarrow> ability \<Rightarrow> ability list \<times> bool" where
  "add_ability answer ability_list ability' =
     (case find (\<lambda>a. duplicate_check a ability') ability_list of
        None \<Rightarrow> (ability_list @ [ability'], False)
      | Some a \<Rightarrow> if answer then (list_remove a ability_list @ [ability'], True)
                  else (ability_list, True))"


definition newline :: string where
  "newline = [CHR 0x0A]"

text \<open>The loop that writes the abilities: an exception ends it, and what was written
  stays written.\<close>

fun write_abilities :: "string \<Rightarrow> ability list \<Rightarrow> string \<times> error option" where
  "write_abilities md [] = ([], None)"
| "write_abilities md (a # rest) =
     (case ability_str (a\<lparr>mode := md\<rparr>) of
        Inl e \<Rightarrow> ([], Some e)
      | Inr (line, _) \<Rightarrow>
          (let (out, err) = write_abilities md rest in (line @ newline @ out, err)))"


section \<open>Notions of the specification\<close>

text \<open>
  The invariant of the data model: a trait is complete for rendering and patching only
  with a non-empty list of subtypes.
\<close>

definition complete :: "ability \<Rightarrow> bool" where
  "complete a = (ability_type a = ''Trait'' \<longrightarrow> ability_subtypes a \<noteq> [])"

text \<open>A pair can be patched when a trait on either side comes with subtypes on both.\<close>

definition patchable :: "ability \<Rightarrow> ability \<Rightarrow> bool" where
  "patchable base m = (ability_type base = ''Trait'' \<or> ability_type m = ''Trait''
                        \<longrightarrow> ability_subtypes base \<noteq> [] \<and> ability_subtypes m \<noteq> [])"

text \<open>A store with two abilities: the base at address 0, the modified one at any other.\<close>

definition two_abilities :: "ability \<Rightarrow> ability \<Rightarrow> heap" where
  "two_abilities base m = (\<lambda>a. if a = 0 then base else m)"

text \<open>A feat with nothing but a name, as the constructor builds it from its defaults.\<close>

definition plain_feat :: "string \<Rightarrow> ability" where
  "plain_feat n = Ability n ''Feat'' [] [] ''None'' [] 0 0 0 0 0 0 0 0 False False None [] []
                    ''Pathfinder 1e''"

definition plain_trait :: "string \<Rightarrow> string list \<Rightarrow> ability" where
  "plain_trait n subtypes = Ability n ''Trait'' [] subtypes ''None'' [] 0 0 0 0 0 0 0 0 False False
                              None [] [] ''Pathfinder 1e''"

text \<open>\<open>s\<close> holds \<open>x\<close> and, somewhere after it, \<open>y\<close>.\<close>

definition followed_by :: "string \<Rightarrow> string \<Rightarrow> string \<Rightarrow> bool" where
  "followed_by s x y = (\<exists>p q r. s = p @ x @ q @ y @ r)"

text \<open>A feat line whose exclusion field lists the three evil alignments.\<close>

definition zeal_line :: string where
  "zeal_line = ''Zeal'' @ tab @ ''CATEGORY:FEAT'' @ tab @ ''!PREALIGN:LE,NE,CE''"

text \<open>A racial trait whose key holds the fragment by which the race entry is recognised.\<close>

definition fragment_trait :: ability where
  "fragment_trait = (plain_trait ''T'' [''Race''])\<lparr>race := ''Elf'', key := ''PRERACE:1,''\<rparr>"

text \<open>The line the serializer gives for a record under a mode (empty when it raises).\<close>

definition rendered :: "string \<Rightarrow> ability \<Rightarrow> string" where
  "rendered md a = (case ability_str (a\<lparr>mode := md\<rparr>) of Inr (line, _) \<Rightarrow> line | Inl _ \<Rightarrow> [])"


text \<open>\<open>s\<close> holds \<open>x\<close>.\<close>

definition occurs :: "string \<Rightarrow> string \<Rightarrow> bool" where
  "occurs x s = (\<exists>q r. s = q @ x @ r)"

text \<open>
  The prerequisite fields in force for a record under a mode, each as the patch writes it:
  the stat minimums of the mode's list in one field, under Pathfinder the three compound
  entries for strength, dexterity and intelligence, the alignment exclusions, the race (a
  compound entry for a trait), the attack bonus, the level, the required feats and the
  narrative text.
\<close>

definition active_prerequisites :: "string \<Rightarrow> ability \<Rightarrow> string list" where
  "active_prerequisites md m =
     (if filter (\<lambda>s. prestat m s > 0) (stats_of_mode md) \<noteq> []
      then [prestat_string m (filter (\<lambda>s. prestat m s > 0) (stats_of_mode md))] else [])
     @ (if md = ''Pathfinder 1e'' \<and> prestat m St_str > 0 then [premult_str (prestat m St_str)] else [])
     @ (if md = ''Pathfinder 1e'' \<and> prestat m St_dex > 0 then [premult_dex (prestat m St_dex)] else [])
     @ (if md = ''Pathfinder 1e'' \<and> prestat m St_int > 0 then [premult_int (prestat m St_int)] else [])
     @ (if length (disallowed_alignments m) < 9
        then [''!PREALIGN:'' @ join '','' (map alignment_name (disallowed_alignments m))] else [])
     @ (if race m \<noteq> ''None'' \<and> ability_type m = ''Trait'' then [premult_race (race m)] else [])
     @ (if race m \<noteq> ''None'' \<and> ability_type m \<noteq> ''Trait'' then [''PRERACE:1,'' @ race m]
        else [])
     @ (if prestat m St_bab > 0 then [''PRETOTALAB:'' @ str_int (prestat m St_bab)] else [])
     @ (if level m > 0 then [''PREVARGTEQ:TL,'' @ str_int (level m)] else [])
     @ (if feats m \<noteq> [] then [mod_feats_string (feats m)] else [])
     @ (if pretext m \<noteq> [] then [''PRETEXT:'' @ pretext m] else [])"

text \<open>The feat \<open>Dodge\<close> with a constitution minimum.\<close>

definition dodge_con :: "int \<Rightarrow> ability" where
  "dodge_con v = (plain_feat ''Dodge'')\<lparr>prestat := (prestat (plain_feat ''Dodge''))(St_con := v)\<rparr>"


section \<open>Facts about the string operations\<close>

lemma startswith_Cons [simp]:
  "startswith s [] = True"
  "startswith [] (p # ps) = False"
  "startswith (c # cs) (p # ps) = (c = p \<and> startswith cs ps)"
  by (auto simp: startswith_def)

lemma split_aux_single_notin:
  "c \<notin> set x \<Longrightarrow> split_aux [c] 0 acc (x @ rest) = split_aux [c] 0 (rev x @ acc) rest"
  by (induction x arbitrary: acc) auto

lemma split_aux_single_sep:
  "split_aux [c] 0 acc (c # rest) = rev acc # split_aux [c] 0 [] rest"
  by simp

lemma split_single_no_sep: "c \<notin> set x \<Longrightarrow> split x [c] = [x]"
  using split_aux_single_notin [of c x "[]" "[]"] by (simp add: split_def)

lemma split_single_cons: "c \<notin> set x \<Longrightarrow> split (x @ c # rest) [c] = x # split rest [c]"
  using split_aux_single_notin [of c x "[]" "c # rest"] by (simp add: split_def)

lemma split_join:
  "xs \<noteq> [] \<Longrightarrow> \<forall>x\<in>set xs. c \<notin> set x \<Longrightarrow> split (join [c] xs) [c] = xs"
proof (induction "[c]" xs rule: join.induct)
  case 1
  then show ?case by simp
next
  case (2 x)
  then show ?case by (simp add: split_single_no_sep)
next
  case (3 x y ys)
  then show ?case using split_single_cons [of c x "join [c] (y # ys)"] by simp
qed

lemma after_colon_prefix:
  "CHR '':'' \<notin> set p \<Longrightarrow> after_colon (p @ CHR '':'' # v) = Inr v"
proof -
  have "takeWhile (\<lambda>x. x \<noteq> CHR '':'') (p @ CHR '':'' # v) = p" if "CHR '':'' \<notin> set p" for p
    using that by (induction p) auto
  moreover have "dropWhile (\<lambda>x. x \<noteq> CHR '':'') (p @ CHR '':'' # v) = CHR '':'' # v"
    if "CHR '':'' \<notin> set p" for p
    using that by (induction p) auto
  ultimately show "CHR '':'' \<notin> set p \<Longrightarrow> after_colon (p @ CHR '':'' # v) = Inr v"
    by (simp add: after_colon_def split1_def index1_def)
qed

section \<open>The example records\<close>

lemma strip_Trait: "strip ''Trait'' = ''Trait''" and strip_Feat: "strip ''Feat'' = ''Feat''"
  and strip_None: "strip ''None'' = ''None''"
  by (simp_all add: strip_def is_space_def)

lemma plain_trait_fields:
  "ability_type (plain_trait n ss) = ''Trait''"
  "ability_subtypes (plain_trait n ss) = ss"
  "key (plain_trait n ss) = strip n"
  "name (plain_trait n ss) = strip n"
  by (simp_all add: plain_trait_def Ability_def strip_Trait)

lemma plain_feat_fields:
  "ability_type (plain_feat n) = ''Feat''"
  "ability_subtypes (plain_feat n) = []"
  "key (plain_feat n) = strip n"
  "name (plain_feat n) = strip n"
  "other_fields (plain_feat n) = []"
  "mode (plain_feat n) = ''Pathfinder 1e''"
  by (simp_all add: plain_feat_def Ability_def strip_Feat)

lemma two_abilities_at:
  "two_abilities base m 0 = base" "two_abilities base m 1 = m" "two_abilities base m (Suc k) = m"
  by (simp_all add: two_abilities_def)

section \<open>Rendering succeeds on complete records\<close>

lemma synthesize_complete:
  "complete a \<Longrightarrow> \<exists>fs. synthesize a = Inr fs"
  by (cases "ability_subtypes a")
     (auto simp: complete_def synthesize_def bypass_other_fields_def Let_def)

lemma type_string_complete:
  "complete a \<Longrightarrow> \<exists>ts. type_string a = Inr ts"
  by (cases "ability_subtypes a")
     (auto simp: complete_def type_string_def trait_type_string_def)

lemma ability_str_complete:
  assumes "complete a"
  shows "\<exists>line fs. ability_str a = Inr (line, a\<lparr>other_fields := fs\<rparr>)"
proof -
  obtain ts where ts: "type_string a = Inr ts" using type_string_complete [OF assms] by blast
  obtain fs where fs: "synthesize a = Inr fs" using synthesize_complete [OF assms] by blast
  show ?thesis by (simp add: ability_str_def ts fs) blast
qed

lemma ability_str_empty_trait:
  "ability_type a = ''Trait'' \<Longrightarrow> ability_subtypes a = [] \<Longrightarrow> ability_str a = Inl IndexError"
  by (simp add: ability_str_def type_string_def trait_type_string_def)

lemma race_changed_patchable:
  "patchable base m \<Longrightarrow> \<exists>rc. race_changed_on_race_trait base m = Inr rc"
  by (cases "ability_subtypes base") (auto simp: patchable_def race_changed_on_race_trait_def)

lemma mod_type_string_patchable:
  "patchable base m \<Longrightarrow> \<exists>ts. mod_type_string base m = Inr ts"
  by (cases "ability_subtypes m") (auto simp: patchable_def mod_type_string_def trait_type_string_def)

lemma mod_synthesize_patchable:
  "patchable base m \<Longrightarrow> \<exists>fs. mod_synthesize clear md base m = (fs, None)"
  by (cases "ability_subtypes m"; cases "ability_subtypes base")
     (auto simp: patchable_def mod_synthesize_def mod_bypass_wanted_def bypass_other_fields_def Let_def)

lemma mod_str_on_patchable:
  assumes "patchable base m"
  shows "\<exists>cs ty ts fs. mod_str_on same md base m =
           (Inr (mod_line cs ty ts (clear_prerequisites base m) md base m
                   (if same then fs else other_fields base) fs), m\<lparr>other_fields := fs\<rparr>)"
proof -
  obtain rc where rc: "race_changed_on_race_trait base m = Inr rc"
    using race_changed_patchable [OF assms] by blast
  obtain ts where ts: "mod_type_string base m = Inr ts"
    using mod_type_string_patchable [OF assms] by blast
  obtain fs where fs: "mod_synthesize (clear_prerequisites base m) md base m = (fs, None)"
    using mod_synthesize_patchable [OF assms] by blast
  show ?thesis
    by (simp add: mod_str_on_def rc ts fs Let_def) blast
qed


lemma clear_prerequisites_same [simp]: "clear_prerequisites r r = False"
  by (simp add: clear_prerequisites_def list_ex_iff)

lemma mod_synthesize_same: "fst (mod_synthesize False md r r) = other_fields r"
  by (cases "ability_subtypes r")
     (auto simp: mod_synthesize_def mod_stat_other_fields_def mod_stat_entry_def
        mod_race_emitted_def mod_bypass_wanted_def Let_def split: sum.splits)

lemma mod_str_on_frame: "\<exists>fs. snd (mod_str_on same md base m) = m\<lparr>other_fields := fs\<rparr>"
proof -
  have triv: "m = m\<lparr>other_fields := other_fields m\<rparr>" by simp
  show ?thesis
    unfolding mod_str_on_def Let_def
    by (auto split: sum.splits prod.splits option.splits intro: exI [of _ "other_fields m"])
qed

lemma mod_str_on_same: "snd (mod_str_on same md r r) = r"
proof -
  have "fst (mod_synthesize False md r r) = other_fields r" by (rule mod_synthesize_same)
  then show ?thesis
    unfolding mod_str_on_def Let_def
    by (auto split: sum.splits prod.splits option.splits)
qed

lemma Mod_str_parts:
  "Mod_str h md =
     (fst (mod_str_on (base_ability md = modified_ability md) (mod_mode md)
             (h (base_ability md)) (h (modified_ability md))),
      h(modified_ability md :=
          snd (mod_str_on (base_ability md = modified_ability md) (mod_mode md)
                 (h (base_ability md)) (h (modified_ability md)))))"
  by (simp add: Mod_str_def Let_def case_prod_beta)







lemma mod_line_header:
  "\<exists>rest. mod_line cs ty ts cl md base m bf fs = mod_header m @ rest"
  by (simp add: mod_line_def header_column_def case_prod_beta Let_def)

lemma mod_str_on_error: "fst (mod_str_on same md base m) = Inl e \<Longrightarrow> e = IndexError"
  unfolding mod_str_on_def Let_def race_changed_on_race_trait_def mod_type_string_def
    trait_type_string_def mod_synthesize_def mod_bypass_wanted_def bypass_other_fields_def
  by (auto split: sum.splits prod.splits option.splits list.splits if_splits)

section \<open>Duplicate detection on insert\<close>

text \<open>
  Claim C7. The duplicate check of \<open>add_ability\<close> should fire exactly when the names or
  the keys of the two records match without regard to case, as \<open>Ability.__eq__\<close>
  defines equality. The code compares the strings as they are: a record named
  \<open>power attack\<close> is equal to the stored \<open>Power Attack\<close> under \<open>__eq__\<close>, yet the check
  does not fire, no question is asked, and the record is appended beside the stored one.
\<close>

theorem add_ability_case_sensitive:
  "ability_eq (plain_feat ''Power Attack'') (plain_feat ''power attack'')
   \<and> \<not> duplicate_check (plain_feat ''Power Attack'') (plain_feat ''power attack'')
   \<and> add_ability True [plain_feat ''Power Attack''] (plain_feat ''power attack'')
       = ([plain_feat ''Power Attack'', plain_feat ''power attack''], False)
   \<and> add_ability False [plain_feat ''Power Attack''] (plain_feat ''power attack'')
       = ([plain_feat ''Power Attack'', plain_feat ''power attack''], False)"
  by (simp add: ability_eq_def duplicate_check_def add_ability_def plain_feat_def Ability_def
        strip_def is_space_def upper_def to_upper_def lowercase_def uppercase_def)

section \<open>The first subtype of a trait\<close>

text \<open>
  Claim C10. A trait with a non-empty list of subtypes renders without an out-of-range
  read, and so does a diff whose base and edited records are such traits; a trait with an
  empty list of subtypes cannot be rendered: reading its first subtype raises
  \<open>IndexError\<close>.
\<close>

theorem trait_first_subtype:
  "(ability_type a = ''Trait'' \<and> ability_subtypes a \<noteq> []
      \<longrightarrow> (\<exists>line fs. ability_str a = Inr (line, a\<lparr>other_fields := fs\<rparr>)))
   \<and> (ability_type (h b) = ''Trait'' \<and> ability_subtypes (h b) \<noteq> []
        \<and> ability_type (h m) = ''Trait'' \<and> ability_subtypes (h m) \<noteq> []
      \<longrightarrow> (\<exists>line. fst (Mod_str h (Mod_init h b m)) = Inr line))
   \<and> (ability_type a' = ''Trait'' \<and> ability_subtypes a' = []
      \<longrightarrow> ability_str a' = Inl IndexError)"
proof (intro conjI impI)
  assume "ability_type a = ''Trait'' \<and> ability_subtypes a \<noteq> []"
  then have "complete a" by (simp add: complete_def)
  then show "\<exists>line fs. ability_str a = Inr (line, a\<lparr>other_fields := fs\<rparr>)"
    by (rule ability_str_complete)
next
  assume "ability_type (h b) = ''Trait'' \<and> ability_subtypes (h b) \<noteq> []
        \<and> ability_type (h m) = ''Trait'' \<and> ability_subtypes (h m) \<noteq> []"
  then have "patchable (h b) (h m)" by (simp add: patchable_def)
  from mod_str_on_patchable [OF this, of "b = m" "mode (h m)"]
  show "\<exists>line. fst (Mod_str h (Mod_init h b m)) = Inr line"
    by (auto simp: Mod_str_parts Mod_init_def)
next
  assume "ability_type a' = ''Trait'' \<and> ability_subtypes a' = []"
  then show "ability_str a' = Inl IndexError"
    by (simp add: ability_str_empty_trait)
qed

theorem trait_first_subtype_witness:
  "(\<exists>line fs. ability_str (plain_trait ''Reactionary'' [''Combat''])
       = Inr (line, (plain_trait ''Reactionary'' [''Combat''])\<lparr>other_fields := fs\<rparr>))
   \<and> (\<exists>line. fst (Mod_str (two_abilities (plain_trait ''Reactionary'' [''Combat''])
                                           (plain_trait ''Reactionary'' [''Social'']))
                    (Mod_init (two_abilities (plain_trait ''Reactionary'' [''Combat''])
                                             (plain_trait ''Reactionary'' [''Social''])) 0 1))
              = Inr line)
   \<and> ability_str (plain_trait ''Reactionary'' []) = Inl IndexError"
  using trait_first_subtype [of "plain_trait ''Reactionary'' [''Combat'']"
      "two_abilities (plain_trait ''Reactionary'' [''Combat''])
                     (plain_trait ''Reactionary'' [''Social''])" 0 1
      "plain_trait ''Reactionary'' []"]
  by (simp add: plain_trait_fields two_abilities_at)

section \<open>The diff leaves the base record alone\<close>

text \<open>
  Claim C9. Rendering a diff changes no field of the base record; of the edited record
  only the list \<open>other_fields\<close> may change, and every other object of the store is left
  as it was. This holds as well when both references of the diff are one object, and when
  the rendering stops with an error.
\<close>

theorem mod_str_frame:
  "snd (Mod_str h md) (base_ability md) = h (base_ability md)
   \<and> (\<exists>fs. snd (Mod_str h md)
              = h(modified_ability md := (h (modified_ability md))\<lparr>other_fields := fs\<rparr>))"
proof -
  obtain fs where fs: "snd (mod_str_on (base_ability md = modified_ability md) (mod_mode md)
             (h (base_ability md)) (h (modified_ability md)))
        = (h (modified_ability md))\<lparr>other_fields := fs\<rparr>"
    using mod_str_on_frame by blast
  have "snd (Mod_str h md) (base_ability md) = h (base_ability md)"
  proof (cases "base_ability md = modified_ability md")
    case True
    then show ?thesis by (simp add: Mod_str_parts mod_str_on_same)
  next
    case False
    then show ?thesis by (simp add: Mod_str_parts)
  qed
  moreover have "snd (Mod_str h md)
      = h(modified_ability md := (h (modified_ability md))\<lparr>other_fields := fs\<rparr>)"
    by (simp add: Mod_str_parts fs)
  ultimately show ?thesis by blast
qed

theorem mod_str_frame_witness:
  "snd (Mod_str (two_abilities (plain_feat ''Dodge'') ((plain_feat ''Dodge'')\<lparr>mult := True\<rparr>))
          \<lparr>base_ability = 0, modified_ability = 1, mod_mode = ''Pathfinder 1e'',
            mod_key = ''Dodge''\<rparr>) 0
     = plain_feat ''Dodge''
   \<and> other_fields (snd (Mod_str (two_abilities (plain_feat ''Dodge'')
                                     ((plain_feat ''Dodge'')\<lparr>mult := True\<rparr>))
          \<lparr>base_ability = 0, modified_ability = 1, mod_mode = ''Pathfinder 1e'',
            mod_key = ''Dodge''\<rparr>) 1)
     = [''CHOOSE:NOCHOICE'']"
proof -
  let ?h = "two_abilities (plain_feat ''Dodge'') ((plain_feat ''Dodge'')\<lparr>mult := True\<rparr>)"
  let ?md = "\<lparr>base_ability = 0, modified_ability = 1, mod_mode = ''Pathfinder 1e'',
              mod_key = ''Dodge''\<rparr>"
  have "snd (Mod_str ?h ?md) (base_ability ?md) = ?h (base_ability ?md)"
    using mod_str_frame [of ?h ?md] by blast
  then have base: "snd (Mod_str ?h ?md) 0 = plain_feat ''Dodge''"
    by (simp add: two_abilities_def)
  have "other_fields (snd (Mod_str ?h ?md) 1) = [''CHOOSE:NOCHOICE'']"
    by (simp add: Mod_str_parts two_abilities_def mod_str_on_def race_changed_on_race_trait_def
          plain_feat_def Ability_def subtype_removed_def added_subtypes_def Let_def
          clear_prerequisites_def prestat_keys_def ALIGNMENTS_def mod_synthesize_def
          mod_pathfinder_stats_def mod_race_emitted_def mod_bypass_wanted_def
          choose_other_fields_def strip_def)
  with base show ?thesis by simp
qed

section \<open>The diff of a record against itself\<close>





section \<open>Diffs across different keys\<close>

text \<open>
  Claim C4, as amended. Neither the constructor of a diff nor its rendering compares the
  keys of the two records. For a pair with different keys that can be patched, the
  rendering yields a patch line, under the key of the edited record; and whatever the
  pair, the only error a rendering can end with is the \<open>IndexError\<close> of an empty list of
  subtypes.
\<close>

theorem mod_str_mismatched_keys:
  "(key (h b) \<noteq> key (h m) \<and> patchable (h b) (h m)
      \<longrightarrow> (\<exists>rest. fst (Mod_str h (Mod_init h b m)) = Inr (mod_header (h m) @ rest)))
   \<and> (fst (Mod_str h (Mod_init h b m)) = Inl e \<longrightarrow> e = IndexError)"
proof (intro conjI impI)
  assume "key (h b) \<noteq> key (h m) \<and> patchable (h b) (h m)"
  then have "patchable (h b) (h m)" by simp
  from mod_str_on_patchable [OF this, of "b = m" "mode (h m)"]
  obtain cs ty ts fs where
    "fst (Mod_str h (Mod_init h b m))
       = Inr (mod_line cs ty ts (clear_prerequisites (h b) (h m)) (mode (h m)) (h b) (h m)
                (if b = m then fs else other_fields (h b)) fs)"
    by (auto simp: Mod_str_parts Mod_init_def)
  then show "\<exists>rest. fst (Mod_str h (Mod_init h b m)) = Inr (mod_header (h m) @ rest)"
    using mod_line_header by metis
next
  assume "fst (Mod_str h (Mod_init h b m)) = Inl e"
  then show "e = IndexError"
    by (simp add: Mod_str_parts mod_str_on_error)
qed

theorem mod_str_mismatched_keys_witness:
  "\<exists>rest. fst (Mod_str (two_abilities (plain_feat ''Dodge'') (plain_feat ''Mobility''))
                 (Mod_init (two_abilities (plain_feat ''Dodge'') (plain_feat ''Mobility'')) 0 1))
           = Inr (''CATEGORY=FEAT|Mobility.MOD'' @ rest)"
  using mod_str_mismatched_keys [of "two_abilities (plain_feat ''Dodge'') (plain_feat ''Mobility'')"
      0 1 IndexError]
  by (simp add: patchable_def two_abilities_at plain_feat_fields mod_header_def
        strip_def is_space_def)

theorem mod_str_mismatched_keys_counterexample:
  "key (plain_feat ''Dodge'') \<noteq> key (plain_feat ''Mobility'')
   \<and> \<not> isl (fst (Mod_str (two_abilities (plain_feat ''Dodge'') (plain_feat ''Mobility''))
                   (Mod_init (two_abilities (plain_feat ''Dodge'') (plain_feat ''Mobility''))
                      0 1)))"
proof -
  have "patchable (plain_feat ''Dodge'') (plain_feat ''Mobility'')"
    by (simp add: patchable_def plain_feat_fields)
  from mod_str_on_patchable [OF this, of False "''Pathfinder 1e''"]
  show ?thesis
    by (auto simp: Mod_str_parts Mod_init_def two_abilities_at plain_feat_fields
          strip_def is_space_def)
qed

section \<open>Rendering twice\<close>

lemma ability_str_record:
  assumes "complete a" and "synthesize a = Inr fs"
  shows "map_sum id snd (ability_str a) = Inr (a\<lparr>other_fields := fs\<rparr>)"
proof -
  obtain ts where "type_string a = Inr ts" using type_string_complete [OF assms(1)] by blast
  then show ?thesis by (simp add: ability_str_def assms(2))
qed

lemma fragment_trait_complete:
  "complete fragment_trait" "complete (fragment_trait\<lparr>other_fields := fs\<rparr>)"
  by (simp_all add: complete_def fragment_trait_def plain_trait_def Ability_def)

lemma fragment_trait_first:
  "synthesize fragment_trait = Inr [premult_race ''Elf'', premult_bypass ''PRERACE:1,'' ''Race'']"
  by (simp add: fragment_trait_def synthesize_def plain_trait_def Ability_def pathfinder_stats_def
        Let_def race_other_fields_def bypass_other_fields_def is_race_premult_def
        is_bypass_premult_def premult_race_def premult_bypass_def count_str_def strip_def
        is_space_def)

lemma fragment_trait_second:
  "synthesize (fragment_trait
       \<lparr>other_fields := [premult_race ''Elf'', premult_bypass ''PRERACE:1,'' ''Race'']\<rparr>)
   = Inr [premult_race ''Elf'', premult_race ''Elf'', premult_bypass ''PRERACE:1,'' ''Race'']"
  by (simp add: fragment_trait_def synthesize_def plain_trait_def Ability_def pathfinder_stats_def
        Let_def race_other_fields_def bypass_other_fields_def is_race_premult_def
        is_bypass_premult_def premult_race_def premult_bypass_def count_str_def strip_def
        is_space_def)

text \<open>
  Claim C6. Rendering a record twice should append each synthesized entry at most once.
  For the racial trait whose key holds the text \<open>PRERACE:1,\<close> the first rendering
  appends the race entry and the bypass entry; the second takes the bypass entry, which
  holds the key, for a race entry and overwrites it, misses the bypass entry and appends
  it again: the race entry now stands twice in \<open>other_fields\<close>, and the bypass entry was
  appended by both renderings.
\<close>

theorem render_twice_duplicates:
  "map_sum id snd (ability_str fragment_trait)
     = Inr (fragment_trait
              \<lparr>other_fields := [premult_race ''Elf'', premult_bypass ''PRERACE:1,'' ''Race'']\<rparr>)
   \<and> map_sum id snd (ability_str (fragment_trait
              \<lparr>other_fields := [premult_race ''Elf'', premult_bypass ''PRERACE:1,'' ''Race'']\<rparr>))
     = Inr (fragment_trait
              \<lparr>other_fields := [premult_race ''Elf'', premult_race ''Elf'',
                                premult_bypass ''PRERACE:1,'' ''Race'']\<rparr>)"
  using ability_str_record [OF fragment_trait_complete(1) fragment_trait_first]
    ability_str_record [OF fragment_trait_complete(2) fragment_trait_second]
  by simp

section \<open>The alignment-exclusion field\<close>

lemma alignment_of_name_name [simp]: "alignment_of_name (alignment_name al) = Some al"
  by (cases al) (simp_all add: alignment_of_name_def ALIGNMENTS_def)

lemma alignment_name_no_comma: "CHR '','' \<notin> set (alignment_name al)"
  by (cases al) simp_all

lemma set_all_false_names:
  "set_all_false (map alignment_name S) d
     = Inr (d\<lparr>d_align := (\<lambda>al. al \<notin> set S \<and> d_align d al)\<rparr>)"
proof (induction S arbitrary: d)
  case Nil
  then show ?case by simp
next
  case (Cons a S)
  have "(\<lambda>al. al \<notin> set S \<and> ((d_align d)(a := False)) al) = (\<lambda>al. al \<notin> set (a # S) \<and> d_align d al)"
    by auto
  with Cons show ?case by (simp add: set_false_def ebind_def)
qed

lemma set_all_false_empty_name: "set_all_false [[]] d = Inr d"
  by (simp add: set_false_def ebind_def alignment_of_name_def ALIGNMENTS_def text_keys_def prestat_keys_def)

lemma prealign_token:
  assumes "strip t = ''!PREALIGN:'' @ join '','' (map alignment_name S)"
  shows "parse_token t d = Inr (d\<lparr>d_align := (\<lambda>al. al \<notin> set S)\<rparr>)"
proof -
  have ac: "after_colon (strip t) = Inr (join '','' (map alignment_name S))"
    using after_colon_prefix [of "''!PREALIGN''" "join '','' (map alignment_name S)"] assms by simp
  have "set_all_false (split (join '','' (map alignment_name S)) '','') (d\<lparr>d_align := (\<lambda>_. True)\<rparr>)
        = Inr (d\<lparr>d_align := (\<lambda>al. al \<notin> set S)\<rparr>)"
  proof (cases S)
    case Nil
    then show ?thesis
      by (simp add: split_def set_false_def ebind_def alignment_of_name_def ALIGNMENTS_def
            text_keys_def prestat_keys_def)
  next
    case (Cons a S')
    then have "split (join '','' (map alignment_name S)) '','' = map alignment_name S"
      using split_join [of "map alignment_name S" "CHR '',''"] alignment_name_no_comma by auto
    then show ?thesis by (simp add: set_all_false_names)
  qed
  then show ?thesis
    using assms ac by (simp add: parse_token_def Let_def ebind_def)
qed


lemma set_number_align: "set_number k v d = Inr d' \<Longrightarrow> d_align d' = d_align d"
  by (auto simp: set_number_def split: option.splits if_splits)

lemma premult_subtokens_align:
  "premult_subtokens ts (p, d) = Inr (p', d') \<Longrightarrow> d_align d' = d_align d"
proof (induction ts arbitrary: p d)
  case Nil
  then show ?case by simp
next
  case (Cons t ts)
  from Cons.prems show ?case
    by (auto simp: ebind_def split: if_splits sum.splits dest!: Cons.IH)
qed

lemma parse_token_align:
  assumes "\<not> startswith (strip t) ''!PREALIGN:''" and "parse_token t d = Inr d'"
  shows "d_align d' = d_align d"
  using assms unfolding parse_token_def Let_def ebind_def
  by (auto split: if_splits sum.splits prod.splits dest: set_number_align premult_subtokens_align)


lemma parse_tokens_align_none:
  "filter (\<lambda>t. startswith (strip t) ''!PREALIGN:'') ts = [] \<Longrightarrow> parse_tokens ts d = Inr d'
   \<Longrightarrow> d_align d' = d_align d"
proof (induction ts arbitrary: d)
  case Nil
  then show ?case by simp
next
  case (Cons t ts)
  from Cons.prems obtain d1 where d1: "parse_token t d = Inr d1" and rest: "parse_tokens ts d1 = Inr d'"
    by (auto simp: ebind_def split: sum.splits)
  from Cons.prems have "\<not> startswith (strip t) ''!PREALIGN:''"
    and "filter (\<lambda>t. startswith (strip t) ''!PREALIGN:'') ts = []"
    by (auto split: if_splits)
  then show ?case using Cons.IH [OF _ rest] parse_token_align [OF _ d1] by simp
qed

lemma parse_tokens_align_one:
  "filter (\<lambda>t. startswith (strip t) ''!PREALIGN:'') ts = [t]
   \<Longrightarrow> strip t = ''!PREALIGN:'' @ join '','' (map alignment_name S)
   \<Longrightarrow> parse_tokens ts d = Inr d'
   \<Longrightarrow> d_align d' = (\<lambda>al. al \<notin> set S)"
proof (induction ts arbitrary: d)
  case Nil
  then show ?case by simp
next
  case (Cons u ts)
  from Cons.prems(3) obtain d1 where d1: "parse_token u d = Inr d1"
    and rest: "parse_tokens ts d1 = Inr d'"
    by (auto simp: ebind_def split: sum.splits)
  show ?case
  proof (cases "startswith (strip u) ''!PREALIGN:''")
    case True
    with Cons.prems(1) have ut: "u = t"
      and none: "filter (\<lambda>t. startswith (strip t) ''!PREALIGN:'') ts = []"
      by auto
    have "parse_token t d = Inr (d\<lparr>d_align := (\<lambda>al. al \<notin> set S)\<rparr>)"
      by (rule prealign_token [OF Cons.prems(2)])
    with ut d1 have "d_align d1 = (\<lambda>al. al \<notin> set S)"
      by auto
    then show ?thesis using parse_tokens_align_none [OF none rest] by simp
  next
    case False
    with Cons.prems(1) have "filter (\<lambda>t. startswith (strip t) ''!PREALIGN:'') ts = [t]"
      by simp
    from Cons.IH [OF this Cons.prems(2) rest] show ?thesis .
  qed
qed

lemma prealign_ability_of_dict: "prealign (ability_of_dict d) = d_align d"
  by (simp add: ability_of_dict_def)

lemma disallowed_alignments_set: "set (disallowed_alignments a) = {al. \<not> prealign a al}"
proof -
  have "al \<in> set ALIGNMENTS" for al by (cases al) (simp_all add: ALIGNMENTS_def)
  then show ?thesis by (auto simp: disallowed_alignments_def)
qed

lemma zeal_tokens: "filter (\<lambda>t. t \<noteq> []) (split zeal_line tab) = [''Zeal'', ''CATEGORY:FEAT'', ''!PREALIGN:LE,NE,CE'']"
  by (simp add: zeal_line_def tab_def split_def)

lemma strip_examples:
  "strip ''CATEGORY:FEAT'' = ''CATEGORY:FEAT''"
  "strip ''!PREALIGN:LE,NE,CE'' = ''!PREALIGN:LE,NE,CE''"
  "strip ''Zeal'' = ''Zeal''"
  by (simp_all add: strip_def is_space_def)

lemma zeal_parse: "\<exists>a. generate_ability zeal_line = Inr (Some a)"
proof -
  have "\<not> startswith (strip zeal_line) ''#''"
    by (simp add: zeal_line_def tab_def strip_def is_space_def)
  moreover have "\<exists>d. parse_tokens [''CATEGORY:FEAT'', ''!PREALIGN:LE,NE,CE''] (initial_dict ''Zeal'') = Inr d \<and> d_type d = ''Feat''"
    using prealign_token [of "''!PREALIGN:LE,NE,CE''" "[LE, NE, CE]"]
    by (simp add: parse_token_def strip_examples ebind_def count_str_def Let_def)
  ultimately show ?thesis
    by (auto simp: generate_ability_def zeal_tokens ebind_def)
qed

text \<open>
  Claim C5, as amended. When a parsed line holds one alignment-exclusion field, listing
  the alignments \<open>S\<close>, the parser first marks all nine alignments allowed (flag \<open>True\<close>)
  and then marks exactly the listed ones excluded (flag \<open>False\<close>): the listed alignments
  are the disallowed alignments of the record, the ones its own exclusion field lists
  when it is rendered, and every other alignment is allowed.
\<close>

theorem prealign_inverts_listed:
  assumes "generate_ability line = Inr (Some a)"
    and "filter (\<lambda>t. t \<noteq> []) (split line tab) = n # ts"
    and "filter (\<lambda>t. startswith (strip t) ''!PREALIGN:'') ts = [t]"
    and "strip t = ''!PREALIGN:'' @ join '','' (map alignment_name S)"
  shows "(\<forall>al. prealign a al = (al \<notin> set S)) \<and> set (disallowed_alignments a) = set S"
proof -
  from assms(1,2) obtain d where d: "parse_tokens ts (initial_dict n) = Inr d"
    and a: "a = ability_of_dict d"
    by (auto simp: generate_ability_def ebind_def split: if_splits sum.splits)
  have "d_align d = (\<lambda>al. al \<notin> set S)"
    by (rule parse_tokens_align_one [OF assms(3,4) d])
  then have "prealign a = (\<lambda>al. al \<notin> set S)"
    by (simp add: a prealign_ability_of_dict)
  then show ?thesis by (simp add: disallowed_alignments_set)
qed

theorem prealign_inverts_listed_witness:
  "set (disallowed_alignments (the (projr (generate_ability zeal_line)))) = {LE, NE, CE}
   \<and> prealign (the (projr (generate_ability zeal_line))) LG
   \<and> \<not> prealign (the (projr (generate_ability zeal_line))) LE"
proof -
  obtain a where a: "generate_ability zeal_line = Inr (Some a)" using zeal_parse by blast
  have "(\<forall>al. prealign a al = (al \<notin> set [LE, NE, CE]))
        \<and> set (disallowed_alignments a) = set [LE, NE, CE]"
    by (rule prealign_inverts_listed [OF a zeal_tokens, of "''!PREALIGN:LE,NE,CE''"])
       (simp_all add: strip_examples)
  then show ?thesis by (simp add: a)
qed

text \<open>
  The claim as stated says that the listed alignments end up allowed and the others
  excluded. For the line of \<open>Zeal\<close> the disallowed alignments of the parsed record are the
  three listed ones.
\<close>

theorem prealign_inverts_listed_counterexample:
  "map_sum id (map_option disallowed_alignments) (generate_ability zeal_line) = Inr (Some [LE, NE, CE])"
proof -
  have "\<not> startswith (strip zeal_line) ''#''"
    by (simp add: zeal_line_def tab_def strip_def is_space_def)
  moreover have "parse_tokens [''CATEGORY:FEAT'', ''!PREALIGN:LE,NE,CE''] (initial_dict ''Zeal'')
     = Inr ((initial_dict ''Zeal'')\<lparr>d_type := ''Feat'', d_align := (\<lambda>al. al \<notin> set [LE, NE, CE])\<rparr>)"
    using prealign_token [of "''!PREALIGN:LE,NE,CE''" "[LE, NE, CE]"]
    by (simp add: parse_token_def strip_examples ebind_def count_str_def Let_def)
  ultimately show ?thesis
    by (simp add: generate_ability_def zeal_tokens ebind_def prealign_ability_of_dict
          disallowed_alignments_def ALIGNMENTS_def)
qed

section \<open>Batch save\<close>





lemma complete_mode [simp]: "complete (a\<lparr>mode := md\<rparr>) = complete a"
  by (simp add: complete_def)

lemma rendered_complete:
  assumes "complete a"
  shows "\<exists>a'. ability_str (a\<lparr>mode := md\<rparr>) = Inr (rendered md a, a')"
proof -
  obtain line fs where "ability_str (a\<lparr>mode := md\<rparr>) = Inr (line, a\<lparr>mode := md, other_fields := fs\<rparr>)"
    using ability_str_complete [of "a\<lparr>mode := md\<rparr>"] assms by auto
  then show ?thesis by (simp add: rendered_def)
qed

lemma write_abilities_complete:
  "\<forall>a\<in>set xs. complete a
   \<Longrightarrow> write_abilities md xs = (concat (map (\<lambda>a. rendered md a @ newline) xs), None)"
proof (induction xs)
  case Nil
  then show ?case by simp
next
  case (Cons a xs)
  then obtain a' where "ability_str (a\<lparr>mode := md\<rparr>) = Inr (rendered md a, a')"
    using rendered_complete [of a md] by auto
  with Cons show ?case by simp
qed






section \<open>The clear sentinel of the prerequisite group\<close>

lemma less_ten: "(d::nat) < 10 \<Longrightarrow> d = 0 \<or> d = 1 \<or> d = 2 \<or> d = 3 \<or> d = 4 \<or> d = 5 \<or> d = 6 \<or> d = 7 \<or> d = 8 \<or> d = 9"
  by arith

lemma digit_char_in: "d < 10 \<Longrightarrow> digit_char d \<in> set digits"
  using less_ten [of d] by (auto simp: digit_char_def digits_def)

lemma str_nat_nonempty: "str_nat n \<noteq> []"
  by (subst str_nat.simps) simp

lemma str_nat_chars: "set (str_nat n) \<subseteq> set digits"
proof (induction n rule: str_nat.induct)
  case (1 n)
  show ?case
  proof (cases "n < 10")
    case True
    then show ?thesis using digit_char_in [of n] by (subst str_nat.simps) simp
  next
    case False
    then show ?thesis using 1 digit_char_in [of "n mod 10"] by (subst str_nat.simps) simp
  qed
qed

lemma str_nat_last: "last (str_nat n) \<in> set digits"
  using str_nat_chars [of n] str_nat_nonempty [of n] last_in_set by blast

lemma str_int_chars: "set (str_int v) \<subseteq> insert (CHR ''-'') (set digits)"
proof (cases "v < 0")
  case True
  then show ?thesis using str_nat_chars [of "nat (- v)"] by (simp add: str_int_def subset_insertI2)
next
  case False
  then show ?thesis using str_nat_chars [of "nat v"] by (simp add: str_int_def subset_insertI2)
qed

lemma str_int_nonempty: "str_int v \<noteq> []"
  by (simp add: str_int_def str_nat_nonempty)

lemma str_int_last: "last (str_int v) \<in> set digits"
  by (simp add: str_int_def str_nat_last str_nat_nonempty)

lemma contains_skip:
  "pat \<noteq> [] \<Longrightarrow> hd pat \<notin> set ds \<Longrightarrow> contains pat (ds @ rest) = contains pat rest"
proof (induction ds)
  case Nil
  then show ?case by simp
next
  case (Cons d ds)
  then have "\<not> startswith (d # ds @ rest) pat"
    by (cases pat) (auto simp: startswith_def)
  with Cons show ?case by simp
qed

lemma contains_str_int:
  "pat \<noteq> [] \<Longrightarrow> hd pat \<notin> insert (CHR ''-'') (set digits)
   \<Longrightarrow> contains pat (str_int v @ rest) = contains pat rest"
  using contains_skip [of pat "str_int v" rest] str_int_chars [of v] by blast

lemma strip_id: "s \<noteq> [] \<Longrightarrow> \<not> is_space (hd s) \<Longrightarrow> \<not> is_space (last s) \<Longrightarrow> strip s = s"
proof -
  assume a: "s \<noteq> []" "\<not> is_space (hd s)" "\<not> is_space (last s)"
  then have "dropWhile is_space s = s" by (cases s) auto
  moreover have "dropWhile is_space (rev s) = rev s"
    using a by (cases "rev s") (auto simp: last_rev hd_rev)
  ultimately show ?thesis by (simp add: strip_def)
qed

lemma digits_not_space: "c \<in> set digits \<Longrightarrow> \<not> is_space c"
  by (auto simp: digits_def is_space_def)

lemma occurs_self: "occurs x x"
  unfolding occurs_def by (metis append_Nil append_Nil2)

lemma occurs_appendI1: "occurs x a \<Longrightarrow> occurs x (a @ b)"
  unfolding occurs_def by (metis append.assoc)

lemma occurs_appendI2: "occurs x b \<Longrightarrow> occurs x (a @ b)"
  unfolding occurs_def by (metis append.assoc)

lemma occurs_mid: "occurs x (a @ x @ b)"
  unfolding occurs_def by blast

lemma followed_byI: "occurs y rest \<Longrightarrow> followed_by (p @ x @ rest) x y"
  unfolding occurs_def followed_by_def by blast

lemma occurs_column: "occurs token (fst (column token w e))"
  by (simp add: column_def case_prod_beta occurs_mid)

lemma occurs_fields_string:
  "f \<in> set fs \<Longrightarrow> strip f \<noteq> [] \<Longrightarrow> occurs (strip f) (fields_string fs)"
proof (induction fs)
  case Nil
  then show ?case by simp
next
  case (Cons g fs)
  show ?case
  proof (cases "f = g")
    case True
    have "occurs (strip f) ((tab @ tab) @ strip f @ fields_string fs)" by (rule occurs_mid)
    with True Cons.prems(2) show ?thesis by (simp add: fields_string_def)
  next
    case False
    with Cons have "occurs (strip f) (fields_string fs)" by simp
    then show ?thesis
      by (cases "strip g = []") (auto simp: fields_string_def intro: occurs_appendI2)
  qed
qed

lemma replace_or_append_entry: "entry \<in> set (replace_or_append p entry fs)"
  by (auto simp: replace_or_append_def list_ex_iff)

lemma replace_or_append_keeps:
  "f \<in> set fs \<Longrightarrow> \<not> p f \<Longrightarrow> f \<in> set (replace_or_append p entry fs)"
  by (auto simp: replace_or_append_def)

lemma race_other_fields_replace:
  "race_other_fields r fs = replace_or_append is_race_premult (premult_race r) fs"
  by (simp add: race_other_fields_def replace_or_append_def)

lemma contains_str_int_end:
  "pat \<noteq> [] \<Longrightarrow> hd pat \<notin> insert (CHR ''-'') (set digits) \<Longrightarrow> contains pat (str_int v) = False"
  using contains_str_int [of pat v "[]"] by simp

lemma all_stats: "s \<in> set prestat_keys"
  by (cases s) (simp_all add: prestat_keys_def)

lemma all_alignments: "al \<in> set ALIGNMENTS"
  by (cases al) (simp_all add: ALIGNMENTS_def)

lemma clear_prerequisites_iff:
  "clear_prerequisites base m \<longleftrightarrow>
     (race base \<noteq> race m \<or> level base \<noteq> level m \<or> pretext base \<noteq> pretext m
      \<or> (\<exists>s. prestat base s \<noteq> prestat m s \<and> prestat base s \<noteq> 0)
      \<or> (\<exists>al. prealign base al \<noteq> prealign m al)
      \<or> (\<exists>f\<in>set (feats base). f \<notin> set (feats m)))"
  using all_stats all_alignments by (auto simp: clear_prerequisites_def list_ex_iff)

lemma mod_str_on_patchable_line:
  assumes "patchable base m"
  shows "\<exists>cs ty ts. mod_str_on same md base m =
           (Inr (mod_line cs ty ts (clear_prerequisites base m) md base m
                   (if same then fst (mod_synthesize (clear_prerequisites base m) md base m)
                    else other_fields base)
                   (fst (mod_synthesize (clear_prerequisites base m) md base m))),
            m\<lparr>other_fields := fst (mod_synthesize (clear_prerequisites base m) md base m)\<rparr>)"
proof -
  obtain rc where rc: "race_changed_on_race_trait base m = Inr rc"
    using race_changed_patchable [OF assms] by blast
  obtain ts where ts: "mod_type_string base m = Inr ts"
    using mod_type_string_patchable [OF assms] by blast
  obtain fs where fs: "mod_synthesize (clear_prerequisites base m) md base m = (fs, None)"
    using mod_synthesize_patchable [OF assms] by blast
  show ?thesis
    by (simp add: mod_str_on_def rc ts fs Let_def) blast
qed

lemma upper_stat_names:
  "upper ''str'' = ''STR''" "upper ''dex'' = ''DEX''" "upper ''int'' = ''INT''"
  by (simp_all add: upper_def to_upper_def lowercase_def uppercase_def)

lemma premult_str_plain:
  "\<not> contains ''PreStatScore_DEX'' (premult_str v)"
  "\<not> contains ''PreStatScore_INT'' (premult_str v)"
  "\<not> contains ''PREMULT:1,'' (premult_str v)"
  by (simp_all add: premult_str_def contains_str_int_end digits_def)

lemma premult_dex_plain:
  "\<not> contains ''PreStatScore_INT'' (premult_dex v)"
  "\<not> contains ''PRERACE:1,'' (premult_dex v)"
  by (simp_all add: premult_dex_def contains_str_int contains_str_int_end digits_def)

lemma premult_int_plain:
  "\<not> contains ''PREMULT:1,'' (premult_int v)"
  by (simp add: premult_int_def contains_str_int contains_str_int_end digits_def)

lemma stat_entries_kept:
  "0 < prestat m St_str \<Longrightarrow>
     premult_str (prestat m St_str) \<in> set (mod_stat_other_fields True base m fs)"
  "0 < prestat m St_dex \<Longrightarrow>
     premult_dex (prestat m St_dex) \<in> set (mod_stat_other_fields True base m fs)"
  "0 < prestat m St_int \<Longrightarrow>
     premult_int (prestat m St_int) \<in> set (mod_stat_other_fields True base m fs)"
  by (simp_all add: mod_stat_other_fields_def mod_stat_entry_def upper_stat_names
        replace_or_append_entry replace_or_append_keeps premult_str_plain premult_dex_plain)

lemma bypass_extends:
  "ability_subtypes a \<noteq> [] \<Longrightarrow> \<exists>ext. bypass_other_fields a fs = Inr (fs @ ext)"
  by (cases "ability_subtypes a") (auto simp: bypass_other_fields_def)

lemma choose_extends: "\<exists>ext. choose_other_fields fs = fs @ ext"
  by (simp add: choose_other_fields_def)

lemma synthesize_extends:
  assumes "patchable base m"
  shows "\<exists>ext. fst (mod_synthesize clear md base m) =
           (if mod_race_emitted clear base m \<and> ability_type m = ''Trait''
            then race_other_fields (race m)
                   (if mod_pathfinder_stats md m
                    then mod_stat_other_fields clear base m (other_fields m) else other_fields m)
            else (if mod_pathfinder_stats md m
                  then mod_stat_other_fields clear base m (other_fields m) else other_fields m))
           @ ext"
    (is "\<exists>ext. _ = ?fs2 @ ext")
proof -
  have "\<exists>w. mod_bypass_wanted clear base m = Inr w"
    using assms
    by (cases "ability_subtypes m"; cases "ability_subtypes base")
       (auto simp: patchable_def mod_bypass_wanted_def)
  then obtain w where w: "mod_bypass_wanted clear base m = Inr w" by blast
  have "\<exists>ext. (if w then bypass_other_fields m ?fs2 else Inr ?fs2) = Inr (?fs2 @ ext)"
  proof (cases w)
    case True
    with w have "ability_type m = ''Trait''"
      by (auto simp: mod_bypass_wanted_def split: if_splits)
    with assms have "ability_subtypes m \<noteq> []" by (simp add: patchable_def)
    from bypass_extends [OF this] True show ?thesis by simp
  next
    case False
    then show ?thesis by simp
  qed
  then obtain ext where ext: "(if w then bypass_other_fields m ?fs2 else Inr ?fs2) = Inr (?fs2 @ ext)"
    by blast
  obtain ext' where ext': "choose_other_fields (?fs2 @ ext) = (?fs2 @ ext) @ ext'"
    using choose_extends by blast
  have "fst (mod_synthesize clear md base m) =
          (if mult m \<and> \<not> mult base then choose_other_fields (?fs2 @ ext) else ?fs2 @ ext)"
    unfolding mod_synthesize_def Let_def w using ext by simp
  then show ?thesis using ext' by (cases "mult m \<and> \<not> mult base") auto
qed

lemma synthesize_keeps:
  assumes "patchable base m"
    and "f \<in> set (if mod_pathfinder_stats md m
                   then mod_stat_other_fields clear base m (other_fields m) else other_fields m)"
    and "\<not> is_race_premult f"
  shows "f \<in> set (fst (mod_synthesize clear md base m))"
proof -
  obtain ext where "fst (mod_synthesize clear md base m) =
           (if mod_race_emitted clear base m \<and> ability_type m = ''Trait''
            then race_other_fields (race m)
                   (if mod_pathfinder_stats md m
                    then mod_stat_other_fields clear base m (other_fields m) else other_fields m)
            else (if mod_pathfinder_stats md m
                  then mod_stat_other_fields clear base m (other_fields m) else other_fields m))
           @ ext"
    using synthesize_extends [OF assms(1)] by blast
  then show ?thesis
    using assms(2,3) by (simp add: race_other_fields_replace replace_or_append_keeps)
qed

lemma synthesize_race:
  assumes "patchable base m" and "mod_race_emitted clear base m" and "ability_type m = ''Trait''"
  shows "premult_race (race m) \<in> set (fst (mod_synthesize clear md base m))"
proof -
  obtain ext where "fst (mod_synthesize clear md base m) =
           (if mod_race_emitted clear base m \<and> ability_type m = ''Trait''
            then race_other_fields (race m)
                   (if mod_pathfinder_stats md m
                    then mod_stat_other_fields clear base m (other_fields m) else other_fields m)
            else (if mod_pathfinder_stats md m
                  then mod_stat_other_fields clear base m (other_fields m) else other_fields m))
           @ ext"
    using synthesize_extends [OF assms(1)] by blast
  then show ?thesis
    using assms(2,3) by (simp add: race_other_fields_replace replace_or_append_entry)
qed

lemma entry_shapes:
  "count_str (take 4 (premult_str v)) ''PRE'' > 0" "strip (premult_str v) = premult_str v"
  "count_str (take 4 (premult_dex v)) ''PRE'' > 0" "strip (premult_dex v) = premult_dex v"
  "count_str (take 4 (premult_int v)) ''PRE'' > 0" "strip (premult_int v) = premult_int v"
  "count_str (take 4 (premult_race r)) ''PRE'' > 0" "strip (premult_race r) = premult_race r"
proof -
  show "count_str (take 4 (premult_str v)) ''PRE'' > 0" "count_str (take 4 (premult_dex v)) ''PRE'' > 0"
    "count_str (take 4 (premult_int v)) ''PRE'' > 0" "count_str (take 4 (premult_race r)) ''PRE'' > 0"
    by (simp_all add: premult_str_def premult_dex_def premult_int_def premult_race_def count_str_def)
  have "\<not> is_space (last (str_int v))"
    using str_int_last [of v] digits_not_space by blast
  then show "strip (premult_str v) = premult_str v"
    by (intro strip_id) (simp_all add: premult_str_def str_int_nonempty is_space_def)
  show "strip (premult_dex v) = premult_dex v" "strip (premult_int v) = premult_int v"
    "strip (premult_race r) = premult_race r"
    by (intro strip_id; simp add: premult_dex_def premult_int_def premult_race_def is_space_def)+
qed

lemma mod_line_after_clear:
  "\<exists>p e6 e7 e8 e9 e10.
     mod_line cs ty ts True md base m bf fs =
       p @ (tab @ ''PRE:.clear'' @ tab)
         @ (mod_stats_column True md base m
            @ fst (column (mod_align_string True m) 5 e6)
            @ fst (mod_race_column True base m e7)
            @ fst (mod_bab_column True base m e8)
            @ fst (mod_level_column True base m e9)
            @ fst (column (mod_feats_string (added_feats True base m)) 11 e10)
            @ mod_pretext_string True base m
            @ flag_string ''MULT:'' (mult m) (mult base)
            @ flag_string ''STACK:'' (stack m) (stack base)
            @ mod_desc_string base m
            @ fields_string (added_other_fields True bf fs))"
proof -
  define e1 where "e1 = snd (header_column m)"
  define c2 where "c2 = (if cs then (tab @ ''TYPE:.clear'' @ tab, e1) else padding 1 3 e1)"
  define c3 where "c3 = (if ty then column ts 5 (snd c2) else (tabs (5 + 1), snd c2))"
  define e6 where "e6 = snd (column (mod_align_string True m) 5 (snd c3))"
  define e7 where "e7 = snd (mod_race_column True base m e6)"
  define e8 where "e8 = snd (mod_bab_column True base m e7)"
  define e9 where "e9 = snd (mod_level_column True base m e8)"
  have "mod_line cs ty ts True md base m bf fs =
       (fst (header_column m) @ fst c2 @ fst c3) @ (tab @ ''PRE:.clear'' @ tab)
         @ (mod_stats_column True md base m
            @ fst (column (mod_align_string True m) 5 (snd c3))
            @ fst (mod_race_column True base m e6)
            @ fst (mod_bab_column True base m e7)
            @ fst (mod_level_column True base m e8)
            @ fst (column (mod_feats_string (added_feats True base m)) 11 e9)
            @ mod_pretext_string True base m
            @ flag_string ''MULT:'' (mult m) (mult base)
            @ flag_string ''STACK:'' (stack m) (stack base)
            @ mod_desc_string base m
            @ fields_string (added_other_fields True bf fs))"
    unfolding mod_line_def Let_def case_prod_beta e1_def c2_def c3_def e6_def e7_def e8_def e9_def
    by simp
  then show ?thesis by blast
qed

lemma occurs_rest:
  assumes "occurs x a0 \<or> occurs x a1 \<or> occurs x a2 \<or> occurs x a3 \<or> occurs x a4 \<or> occurs x a5
           \<or> occurs x a6 \<or> occurs x a10"
  shows "occurs x (a0 @ a1 @ a2 @ a3 @ a4 @ a5 @ a6 @ a7 @ a8 @ a9 @ a10)"
  using assms by (elim disjE) (simp_all add: occurs_appendI1 occurs_appendI2)

lemma seg_stats:
  "filter (\<lambda>s. prestat m s > 0) (stats_of_mode md) \<noteq> []
   \<Longrightarrow> occurs (prestat_string m (filter (\<lambda>s. prestat m s > 0) (stats_of_mode md)))
         (mod_stats_column True md base m)"
  by (simp add: mod_stats_column_def mod_stats_required_def Let_def occurs_appendI1 occurs_self)

lemma seg_align:
  "length (disallowed_alignments m) < 9
   \<Longrightarrow> occurs (''!PREALIGN:'' @ join '','' (map alignment_name (disallowed_alignments m)))
         (fst (column (mod_align_string True m) 5 e))"
  using occurs_column [of "mod_align_string True m" 5 e] by (simp add: mod_align_string_def)

lemma seg_race:
  "race m \<noteq> ''None'' \<Longrightarrow> ability_type m \<noteq> ''Trait''
   \<Longrightarrow> occurs (''PRERACE:1,'' @ race m) (fst (mod_race_column True base m e))"
  using occurs_column [of "''PRERACE:1,'' @ race m" 4 e]
  by (simp add: mod_race_column_def mod_race_emitted_def)

lemma seg_bab:
  "prestat m St_bab > 0
   \<Longrightarrow> occurs (''PRETOTALAB:'' @ str_int (prestat m St_bab)) (fst (mod_bab_column True base m e))"
  using occurs_appendI2 [OF occurs_self, of "''PRETOTALAB:'' @ str_int (prestat m St_bab)" tab]
  by (simp add: mod_bab_column_def)

lemma seg_level:
  "level m > 0
   \<Longrightarrow> occurs (''PREVARGTEQ:TL,'' @ str_int (level m)) (fst (mod_level_column True base m e))"
  using occurs_appendI2 [OF occurs_self, of "''PREVARGTEQ:TL,'' @ str_int (level m)" tab]
  by (simp add: mod_level_column_def)

lemma seg_feats:
  "occurs (mod_feats_string (feats m))
     (fst (column (mod_feats_string (added_feats True base m)) 11 e))"
  using occurs_column [of "mod_feats_string (feats m)" 11 e] by (simp add: added_feats_def)

lemma seg_pretext:
  "pretext m \<noteq> [] \<Longrightarrow> occurs (''PRETEXT:'' @ pretext m) (mod_pretext_string True base m)"
  using occurs_appendI2 [OF occurs_self, of "''PRETEXT:'' @ pretext m" tab]
  by (simp add: mod_pretext_string_def)

lemma seg_entry:
  assumes "x \<in> set fs" and "count_str (take 4 x) ''PRE'' > 0" and "strip x = x" and "x \<noteq> []"
  shows "occurs x (fields_string (added_other_fields True bf fs))"
proof -
  have "x \<in> set (added_other_fields True bf fs)"
    using assms(1,2) by (simp add: added_other_fields_def)
  from occurs_fields_string [OF this] assms(3,4) show ?thesis by simp
qed

lemma entry_nonempty:
  "premult_str v \<noteq> []" "premult_dex v \<noteq> []" "premult_int v \<noteq> []" "premult_race r \<noteq> []"
  by (simp_all add: premult_str_def premult_dex_def premult_int_def premult_race_def)

lemma entries_reemitted:
  assumes "patchable base m"
  shows "md = ''Pathfinder 1e'' \<Longrightarrow> prestat m St_str > 0 \<Longrightarrow>
           occurs (premult_str (prestat m St_str))
             (fields_string (added_other_fields True bf (fst (mod_synthesize True md base m))))"
    and "md = ''Pathfinder 1e'' \<Longrightarrow> prestat m St_dex > 0 \<Longrightarrow>
           occurs (premult_dex (prestat m St_dex))
             (fields_string (added_other_fields True bf (fst (mod_synthesize True md base m))))"
    and "md = ''Pathfinder 1e'' \<Longrightarrow> prestat m St_int > 0 \<Longrightarrow>
           occurs (premult_int (prestat m St_int))
             (fields_string (added_other_fields True bf (fst (mod_synthesize True md base m))))"
    and "race m \<noteq> ''None'' \<Longrightarrow> ability_type m = ''Trait'' \<Longrightarrow>
           occurs (premult_race (race m))
             (fields_string (added_other_fields True bf (fst (mod_synthesize True md base m))))"
proof -
  {
    assume pf: "md = ''Pathfinder 1e''" and pos: "prestat m St_str > 0"
    then have "premult_str (prestat m St_str) \<in> set (fst (mod_synthesize True md base m))"
      by (intro synthesize_keeps [OF assms])
         (simp_all add: mod_pathfinder_stats_def stat_entries_kept is_race_premult_def
            premult_str_plain)
    then show "occurs (premult_str (prestat m St_str))
             (fields_string (added_other_fields True bf (fst (mod_synthesize True md base m))))"
      by (intro seg_entry) (simp_all add: entry_shapes entry_nonempty)
  }
  {
    assume pf: "md = ''Pathfinder 1e''" and pos: "prestat m St_dex > 0"
    then have "premult_dex (prestat m St_dex) \<in> set (fst (mod_synthesize True md base m))"
      by (intro synthesize_keeps [OF assms])
         (simp_all add: mod_pathfinder_stats_def stat_entries_kept is_race_premult_def
            premult_dex_plain)
    then show "occurs (premult_dex (prestat m St_dex))
             (fields_string (added_other_fields True bf (fst (mod_synthesize True md base m))))"
      by (intro seg_entry) (simp_all add: entry_shapes entry_nonempty)
  }
  {
    assume pf: "md = ''Pathfinder 1e''" and pos: "prestat m St_int > 0"
    then have "premult_int (prestat m St_int) \<in> set (fst (mod_synthesize True md base m))"
      by (intro synthesize_keeps [OF assms])
         (simp_all add: mod_pathfinder_stats_def stat_entries_kept is_race_premult_def
            premult_int_plain)
    then show "occurs (premult_int (prestat m St_int))
             (fields_string (added_other_fields True bf (fst (mod_synthesize True md base m))))"
      by (intro seg_entry) (simp_all add: entry_shapes entry_nonempty)
  }
  {
    assume "race m \<noteq> ''None''" and "ability_type m = ''Trait''"
    then have "premult_race (race m) \<in> set (fst (mod_synthesize True md base m))"
      by (intro synthesize_race [OF assms]) (simp_all add: mod_race_emitted_def)
    then show "occurs (premult_race (race m))
             (fields_string (added_other_fields True bf (fst (mod_synthesize True md base m))))"
      by (intro seg_entry) (simp_all add: entry_shapes entry_nonempty)
  }
qed

lemma in_set_if: "x \<in> set (if c then [v] else []) \<longleftrightarrow> c \<and> x = v"
  by auto

lemma active_prerequisites_reemitted:
  assumes "patchable base m" and "x \<in> set (active_prerequisites md m)"
  shows "occurs x
          (mod_stats_column True md base m
            @ fst (column (mod_align_string True m) 5 e6)
            @ fst (mod_race_column True base m e7)
            @ fst (mod_bab_column True base m e8)
            @ fst (mod_level_column True base m e9)
            @ fst (column (mod_feats_string (added_feats True base m)) 11 e10)
            @ mod_pretext_string True base m
            @ flag_string ''MULT:'' (mult m) (mult base)
            @ flag_string ''STACK:'' (stack m) (stack base)
            @ mod_desc_string base m
            @ fields_string (added_other_fields True bf (fst (mod_synthesize True md base m))))"
proof -
  from assms(2) consider
      (stats) "filter (\<lambda>s. prestat m s > 0) (stats_of_mode md) \<noteq> []"
        "x = prestat_string m (filter (\<lambda>s. prestat m s > 0) (stats_of_mode md))"
    | (str) "md = ''Pathfinder 1e''" "prestat m St_str > 0" "x = premult_str (prestat m St_str)"
    | (dex) "md = ''Pathfinder 1e''" "prestat m St_dex > 0" "x = premult_dex (prestat m St_dex)"
    | (int) "md = ''Pathfinder 1e''" "prestat m St_int > 0" "x = premult_int (prestat m St_int)"
    | (align) "length (disallowed_alignments m) < 9"
        "x = ''!PREALIGN:'' @ join '','' (map alignment_name (disallowed_alignments m))"
    | (trait_race) "race m \<noteq> ''None''" "ability_type m = ''Trait''" "x = premult_race (race m)"
    | (race) "race m \<noteq> ''None''" "ability_type m \<noteq> ''Trait''" "x = ''PRERACE:1,'' @ race m"
    | (bab) "prestat m St_bab > 0" "x = ''PRETOTALAB:'' @ str_int (prestat m St_bab)"
    | (level) "level m > 0" "x = ''PREVARGTEQ:TL,'' @ str_int (level m)"
    | (feats) "x = mod_feats_string (feats m)"
    | (pretext) "pretext m \<noteq> []" "x = ''PRETEXT:'' @ pretext m"
    unfolding active_prerequisites_def set_append Un_iff in_set_if by blast
  then show ?thesis
  proof cases
    case stats
    have "occurs x (mod_stats_column True md base m)"
      unfolding stats(2) by (rule seg_stats [OF stats(1)])
    then show ?thesis by (intro occurs_rest) blast
  next
    case str
    have "occurs x (fields_string (added_other_fields True bf (fst (mod_synthesize True md base m))))"
      unfolding str(3) by (rule entries_reemitted(1) [OF assms(1) str(1,2)])
    then show ?thesis by (intro occurs_rest) blast
  next
    case dex
    have "occurs x (fields_string (added_other_fields True bf (fst (mod_synthesize True md base m))))"
      unfolding dex(3) by (rule entries_reemitted(2) [OF assms(1) dex(1,2)])
    then show ?thesis by (intro occurs_rest) blast
  next
    case int
    have "occurs x (fields_string (added_other_fields True bf (fst (mod_synthesize True md base m))))"
      unfolding int(3) by (rule entries_reemitted(3) [OF assms(1) int(1,2)])
    then show ?thesis by (intro occurs_rest) blast
  next
    case align
    have "occurs x (fst (column (mod_align_string True m) 5 e6))"
      unfolding align(2) by (rule seg_align [OF align(1)])
    then show ?thesis by (intro occurs_rest) blast
  next
    case trait_race
    have "occurs x (fields_string (added_other_fields True bf (fst (mod_synthesize True md base m))))"
      unfolding trait_race(3) by (rule entries_reemitted(4) [OF assms(1) trait_race(1,2)])
    then show ?thesis by (intro occurs_rest) blast
  next
    case race
    have "occurs x (fst (mod_race_column True base m e7))"
      unfolding race(3) by (rule seg_race [OF race(1,2)])
    then show ?thesis by (intro occurs_rest) blast
  next
    case bab
    have "occurs x (fst (mod_bab_column True base m e8))"
      unfolding bab(2) by (rule seg_bab [OF bab(1)])
    then show ?thesis by (intro occurs_rest) blast
  next
    case level
    have "occurs x (fst (mod_level_column True base m e9))"
      unfolding level(2) by (rule seg_level [OF level(1)])
    then show ?thesis by (intro occurs_rest) blast
  next
    case feats
    have "occurs x (fst (column (mod_feats_string (added_feats True base m)) 11 e10))"
      unfolding feats by (rule seg_feats)
    then show ?thesis by (intro occurs_rest) blast
  next
    case pretext
    have "occurs x (mod_pretext_string True base m)"
      unfolding pretext(2) by (rule seg_pretext [OF pretext(1)])
    then show ?thesis by (intro occurs_rest) blast
  qed
qed

lemma followed_by_sentinel:
  "occurs y rest \<Longrightarrow> followed_by (p @ (tab @ ''PRE:.clear'' @ tab) @ rest) ''PRE:.clear'' y"
proof -
  assume "occurs y rest"
  then have "occurs y (tab @ rest)" by (rule occurs_appendI2)
  from followed_byI [OF this, of "p @ tab" "''PRE:.clear''"] show ?thesis by simp
qed

text \<open>
  Claim C3, as amended. For every pair of a base and an edited record that can be
  patched, if a member of the prerequisite group differs (the race, the level or the
  narrative text; a stat minimum or the attack bonus whose base value is not zero; an
  alignment flag; or a feat of the base that the edited record lacks), the patch line
  holds the sentinel \<open>PRE:.clear\<close>, and after it every prerequisite field in force for
  the edited record.
\<close>

theorem clear_prerequisites_reemits:
  assumes "patchable (h b) (h m)"
    and "race (h b) \<noteq> race (h m) \<or> level (h b) \<noteq> level (h m) \<or> pretext (h b) \<noteq> pretext (h m)
         \<or> (\<exists>s. prestat (h b) s \<noteq> prestat (h m) s \<and> prestat (h b) s \<noteq> 0)
         \<or> (\<exists>al. prealign (h b) al \<noteq> prealign (h m) al)
         \<or> (\<exists>f\<in>set (feats (h b)). f \<notin> set (feats (h m)))"
  shows "\<exists>line. fst (Mod_str h (Mod_init h b m)) = Inr line
           \<and> occurs ''PRE:.clear'' line
           \<and> (\<forall>x\<in>set (active_prerequisites (mode (h m)) (h m)).
                 followed_by line ''PRE:.clear'' x)"
proof -
  have clear: "clear_prerequisites (h b) (h m)"
    using assms(2) by (simp add: clear_prerequisites_iff)
  from mod_str_on_patchable_line [OF assms(1), of "b = m" "mode (h m)"] clear
  obtain cs ty ts bf where line: "fst (Mod_str h (Mod_init h b m)) =
      Inr (mod_line cs ty ts True (mode (h m)) (h b) (h m) bf
             (fst (mod_synthesize True (mode (h m)) (h b) (h m))))"
    by (auto simp: Mod_str_parts Mod_init_def)
  from mod_line_after_clear [of cs ty ts "mode (h m)" "h b" "h m" bf
      "fst (mod_synthesize True (mode (h m)) (h b) (h m))"]
  obtain p e6 e7 e8 e9 e10 where parts:
    "mod_line cs ty ts True (mode (h m)) (h b) (h m) bf
        (fst (mod_synthesize True (mode (h m)) (h b) (h m))) =
       p @ (tab @ ''PRE:.clear'' @ tab)
         @ (mod_stats_column True (mode (h m)) (h b) (h m)
            @ fst (column (mod_align_string True (h m)) 5 e6)
            @ fst (mod_race_column True (h b) (h m) e7)
            @ fst (mod_bab_column True (h b) (h m) e8)
            @ fst (mod_level_column True (h b) (h m) e9)
            @ fst (column (mod_feats_string (added_feats True (h b) (h m))) 11 e10)
            @ mod_pretext_string True (h b) (h m)
            @ flag_string ''MULT:'' (mult (h m)) (mult (h b))
            @ flag_string ''STACK:'' (stack (h m)) (stack (h b))
            @ mod_desc_string (h b) (h m)
            @ fields_string (added_other_fields True bf
                (fst (mod_synthesize True (mode (h m)) (h b) (h m)))))"
    by blast
  have "occurs ''PRE:.clear''
          (mod_line cs ty ts True (mode (h m)) (h b) (h m) bf
             (fst (mod_synthesize True (mode (h m)) (h b) (h m))))"
    unfolding parts using occurs_mid [of "''PRE:.clear''" "p @ tab"] by simp
  moreover have "\<forall>x\<in>set (active_prerequisites (mode (h m)) (h m)).
      followed_by (mod_line cs ty ts True (mode (h m)) (h b) (h m) bf
             (fst (mod_synthesize True (mode (h m)) (h b) (h m)))) ''PRE:.clear'' x"
    unfolding parts
    using active_prerequisites_reemitted [OF assms(1)] by (intro ballI followed_by_sentinel)
  ultimately show ?thesis using line by blast
qed

lemma dodge_con_fields:
  "ability_type (dodge_con v) = ''Feat''" "prestat (dodge_con v) St_con = v"
  "mode (dodge_con v) = ''Pathfinder 1e''" "key (dodge_con v) = strip ''Dodge''"
  by (simp_all add: dodge_con_def plain_feat_fields)

lemma dodge_con_active:
  "tab @ ''PRESTAT:1,CON=13'' \<in> set (active_prerequisites ''Pathfinder 1e'' (dodge_con 13))"
proof -
  have "filter (\<lambda>s. prestat (dodge_con 13) s > 0) (stats_of_mode ''Pathfinder 1e'') = [St_con]"
    by (simp add: stats_of_mode_def dodge_con_def plain_feat_def Ability_def)
  moreover have "prestat_string (dodge_con 13) [St_con] = tab @ ''PRESTAT:1,CON=13''"
    by (simp add: prestat_string_def dodge_con_fields str_int_def str_nat.simps digit_char_def
          digits_def upper_def to_upper_def lowercase_def uppercase_def)
  ultimately show ?thesis by (simp add: active_prerequisites_def)
qed

theorem clear_prerequisites_reemits_witness:
  "\<exists>line. fst (Mod_str (two_abilities (dodge_con 12) (dodge_con 13))
                 (Mod_init (two_abilities (dodge_con 12) (dodge_con 13)) 0 1)) = Inr line
          \<and> occurs ''PRE:.clear'' line
          \<and> followed_by line ''PRE:.clear'' (tab @ ''PRESTAT:1,CON=13'')"
proof -
  let ?h = "two_abilities (dodge_con 12) (dodge_con 13)"
  have p: "patchable (?h 0) (?h 1)"
    by (simp add: patchable_def two_abilities_at dodge_con_fields)
  have "prestat (?h 0) St_con \<noteq> prestat (?h 1) St_con \<and> prestat (?h 0) St_con \<noteq> 0"
    by (simp add: two_abilities_at dodge_con_fields)
  then have t: "race (?h 0) \<noteq> race (?h 1) \<or> level (?h 0) \<noteq> level (?h 1)
         \<or> pretext (?h 0) \<noteq> pretext (?h 1)
         \<or> (\<exists>s. prestat (?h 0) s \<noteq> prestat (?h 1) s \<and> prestat (?h 0) s \<noteq> 0)
         \<or> (\<exists>al. prealign (?h 0) al \<noteq> prealign (?h 1) al)
         \<or> (\<exists>f\<in>set (feats (?h 0)). f \<notin> set (feats (?h 1)))"
    by blast
  have "tab @ ''PRESTAT:1,CON=13'' \<in> set (active_prerequisites (mode (?h 1)) (?h 1))"
    using dodge_con_active by (simp add: two_abilities_at dodge_con_fields)
  with clear_prerequisites_reemits [OF p t] show ?thesis by blast
qed

text \<open>
  The claim as stated counts a stat minimum that moves from zero to a value as a
  difference that brings the sentinel. For \<open>Dodge\<close> with a constitution minimum raised
  from 0 to 13 the patch holds the new minimum and no sentinel.
\<close>

theorem clear_prerequisites_reemits_counterexample:
  "prestat (dodge_con 0) St_con = 0 \<and> prestat (dodge_con 13) St_con = 13
   \<and> key (dodge_con 0) = key (dodge_con 13)
   \<and> \<not> isl (fst (Mod_str (two_abilities (dodge_con 0) (dodge_con 13))
                   (Mod_init (two_abilities (dodge_con 0) (dodge_con 13)) 0 1)))
   \<and> \<not> contains ''PRE:.clear''
         (projr (fst (Mod_str (two_abilities (dodge_con 0) (dodge_con 13))
                        (Mod_init (two_abilities (dodge_con 0) (dodge_con 13)) 0 1))))
   \<and> contains ''PRESTAT:1,CON=13''
         (projr (fst (Mod_str (two_abilities (dodge_con 0) (dodge_con 13))
                        (Mod_init (two_abilities (dodge_con 0) (dodge_con 13)) 0 1))))"
  by code_simp

end
